theory Spec2Isabelle
  imports Complex_Main "HOL-Library.Log_Nat"
begin

section \<open>Data model\<close>

text \<open>
  The two backends (\<^verbatim>\<open>kenzx_captcha/_solver.py\<close> for Selenium and
  \<^verbatim>\<open>solver_playwright.py\<close> for Playwright) share the data model and most functions.
  The bounding boxes that the browser reports as JavaScript numbers, and clock readings
  and durations that Python holds as floats, are modelled by reals, and the products and
  differences the code takes of them (areas, elapsed time) are exact here. The
  interpolation of drags, where rounding decides which pixel is hit, is modelled with
  the rounding of IEEE doubles (section Doubles).
\<close>

datatype backend = Selenium | Playwright

text \<open>The dataclass \<^verbatim>\<open>_CropRect\<close> (field \<^verbatim>\<open>top\<close> is written \<open>top_y\<close>).\<close>

record crop_rect =
  left :: int
  top_y :: int
  width :: int
  height :: int

text \<open>A DOMRect as \<^verbatim>\<open>getBoundingClientRect()\<close> returns it.\<close>

record dom_rect =
  dom_left :: real
  dom_top :: real
  dom_width :: real
  dom_height :: real

text \<open>
  What the geometry script reads of the live document: the bounding rectangles of
  \<^verbatim>\<open>document.querySelectorAll('iframe[src*="hcaptcha.com"]')\<close> in document order, and
  the window's inner size.
\<close>

record document =
  iframes :: "dom_rect list"
  innerWidth :: int
  innerHeight :: int

text \<open>
  Python exceptions. \<open>KeyboardInterrupt\<close> derives from BaseException only; the other
  two stand for exceptions derived from Exception (\<open>OtherException\<close> is any of them that
  is not a TimeoutError: transport errors, driver errors, KeyError, ...).
\<close>

datatype exn = KeyboardInterrupt | TimeoutError | OtherException

section \<open>Pointer gestures\<close>

text \<open>
  Where a gesture is dispatched and what its coordinates are measured from:
  \<^item> \<open>OuterViewport\<close>: the outer page, coordinates in its viewport (Playwright's
    \<^verbatim>\<open>page.mouse\<close>);
  \<^item> \<open>OuterBody\<close>: the outer page, coordinates as offsets from its \<^verbatim>\<open>body\<close> element in
    the sense of Selenium's \<^verbatim>\<open>move_to_element_with_offset(body, x, y)\<close>;
  \<^item> \<open>NestedFrame\<close>: the document of the CAPTCHA frame (its first child frame, if it
    has one), coordinates as \<^verbatim>\<open>clientX\<close>, \<^verbatim>\<open>clientY\<close> there.
\<close>

datatype target = OuterViewport | OuterBody | NestedFrame

text \<open>
  A press and a release carry the point the pointer is at (Selenium's
  \<^verbatim>\<open>click_and_hold()\<close>, \<^verbatim>\<open>release()\<close>, \<^verbatim>\<open>click()\<close> and Playwright's
  \<^verbatim>\<open>mouse.down()\<close>, \<^verbatim>\<open>mouse.up()\<close> take none: they act where the last move went).
  \<open>ClickEvent\<close> is the synthetic \<^verbatim>\<open>click\<close> MouseEvent that the in-frame script
  dispatches after \<^verbatim>\<open>mousedown\<close> and \<^verbatim>\<open>mouseup\<close>.
\<close>

datatype pointer_event =
    PointerDown int int
  | PointerMove int int
  | PointerUp int int
  | ClickEvent int int

type_synonym gesture = "target \<times> pointer_event list"

type_synonym point = "int \<times> int"

text \<open>JavaScript \<^verbatim>\<open>Math.round\<close>: to the nearest integer, halves towards plus infinity.\<close>

definition js_round :: "real \<Rightarrow> int" where
  "js_round x = \<lfloor>x + 1 / 2\<rfloor>"

text \<open>Python \<^verbatim>\<open>int(float)\<close>: truncation towards zero.\<close>

definition py_int :: "real \<Rightarrow> int" where
  "py_int x = (if 0 \<le> x then \<lfloor>x\<rfloor> else \<lceil>x\<rceil>)"

section \<open>Doubles\<close>

text \<open>
  Python floats and JavaScript numbers are IEEE 754 doubles: every arithmetic result is
  the exact result rounded to the nearest number with a 53-bit significand, ties to the
  even significand. \<open>fl64\<close> is that rounding. The exponent range is not bounded here:
  overflow to infinity (above about 1.8e308) and subnormal numbers (below about 2.2e-308)
  are out of the model, far from any pixel coordinate.
\<close>

definition round_half_even :: "real \<Rightarrow> int" where
  "round_half_even x =
     (if x - real_of_int \<lfloor>x\<rfloor> < 1 / 2 then \<lfloor>x\<rfloor>
      else if 1 / 2 < x - real_of_int \<lfloor>x\<rfloor> then \<lfloor>x\<rfloor> + 1
      else if even \<lfloor>x\<rfloor> then \<lfloor>x\<rfloor> else \<lfloor>x\<rfloor> + 1)"

text \<open>The \<open>e\<close> with \<open>2 ^ e \<le> \<bar>x\<bar> < 2 ^ (e + 1)\<close>, for \<open>x\<close> other than 0.\<close>

definition binary_exponent :: "real \<Rightarrow> int" where
  "binary_exponent x =
     (if 1 \<le> \<bar>x\<bar> then bitlen \<lfloor>\<bar>x\<bar>\<rfloor> - 1
      else - int (ceillog2 (nat \<lceil>1 / \<bar>x\<bar>\<rceil>)))"

definition pow2 :: "int \<Rightarrow> real" where
  "pow2 k = (if 0 \<le> k then 2 ^ nat k else 1 / 2 ^ nat (- k))"

definition fl64 :: "real \<Rightarrow> real" where
  "fl64 x =
     (if x = 0 then 0
      else real_of_int (round_half_even (x / pow2 (binary_exponent x - 52)))
           * pow2 (binary_exponent x - 52))"

section \<open>Frame Locator: \<^verbatim>\<open>_get_viewport_and_crop\<close>\<close>

text \<open>
  The loop of the embedded script, with its two variables \<^verbatim>\<open>best\<close> and
  \<^verbatim>\<open>bestArea\<close>:
  \<^verbatim>\<open>if (r.width < 50 || r.height < 50) continue;
  var area = r.width * r.height;
  if (area > bestArea) { bestArea = area; best = r; }\<close>
\<close>

fun scan_iframes :: "dom_rect list \<Rightarrow> dom_rect option \<Rightarrow> real \<Rightarrow> dom_rect option" where
  "scan_iframes [] best bestArea = best"
| "scan_iframes (r # rs) best bestArea =
     (if dom_width r < 50 \<or> dom_height r < 50 then scan_iframes rs best bestArea
      else if dom_width r * dom_height r > bestArea
        then scan_iframes rs (Some r) (dom_width r * dom_height r)
        else scan_iframes rs best bestArea)"

text \<open>
  \<^verbatim>\<open>var w = window.innerWidth || 1280, h = window.innerHeight || 720;\<close> and the
  Python side's \<^verbatim>\<open>int(result.get("viewportW") or 1280)\<close>. The script always returns
  an object with these two members, so the Python branch \<^verbatim>\<open>if not result\<close> (which
  gives None, 1280, 720) is not taken.
\<close>

definition viewportW :: "document \<Rightarrow> int" where
  "viewportW d = (if innerWidth d = 0 then 1280 else innerWidth d)"

definition viewportH :: "document \<Rightarrow> int" where
  "viewportH d = (if innerHeight d = 0 then 720 else innerHeight d)"

definition round_rect :: "dom_rect \<Rightarrow> crop_rect" where
  "round_rect r = \<lparr>left = js_round (dom_left r), top_y = js_round (dom_top r),
     width = js_round (dom_width r), height = js_round (dom_height r)\<rparr>"

definition get_viewport_and_crop :: "document \<Rightarrow> crop_rect option \<times> int \<times> int" where
  "get_viewport_and_crop d =
     (case scan_iframes (iframes d) None 0 of
        Some r \<Rightarrow> (Some (round_rect r), viewportW d, viewportH d)
      | None \<Rightarrow> (None, viewportW d, viewportH d))"

text \<open>An iframe the scan does not discard, and its area.\<close>

definition qualifies :: "dom_rect \<Rightarrow> bool" where
  "qualifies r = (\<not> (dom_width r < 50 \<or> dom_height r < 50))"

definition area :: "dom_rect \<Rightarrow> real" where
  "area r = dom_width r * dom_height r"

section \<open>Traces\<close>

text \<open>
  What a run does to the outside world, in order: log lines (the message without its
  formatted arguments), sleeps (seconds), browser probes and clock readings, replayed
  gestures, and the five calls of the remote protocol with their arguments.
\<close>

datatype event =
    Log string
  | Sleep real
  | Probe
  | Capture
  | PerfCounter real
  | SetLastShot real
  | Replay gesture
  | CreateTask string
  | StartRemoteSession string string string int int "crop_rect option"
  | GetNextAction string
  | UpdateScreenshot string string int int "crop_rect option"
  | NotifySolved string string

fun is_network_call :: "event \<Rightarrow> bool" where
  "is_network_call (CreateTask _) = True"
| "is_network_call (StartRemoteSession _ _ _ _ _ _) = True"
| "is_network_call (GetNextAction _) = True"
| "is_network_call (UpdateScreenshot _ _ _ _ _) = True"
| "is_network_call (NotifySolved _ _) = True"
| "is_network_call _ = False"

section \<open>Expansion Waiter: \<^verbatim>\<open>_wait_expanded\<close>\<close>

definition MIN_SIZE :: int where
  "MIN_SIZE = 260"

text \<open>
  \<^verbatim>\<open>rect is not None and rect.width >= MIN_SIZE and rect.height >= MIN_SIZE\<close>
\<close>

definition is_expanded :: "crop_rect option \<Rightarrow> bool" where
  "is_expanded rect =
     (case rect of None \<Rightarrow> False | Some r \<Rightarrow> width r \<ge> MIN_SIZE \<and> height r \<ge> MIN_SIZE)"

datatype wait_result =
    WaitReturned crop_rect int int
  | WaitRaised exn
  | WaitPolling

text \<open>
  The environment of the wait is a script with one entry per pass of the
  \<^verbatim>\<open>while True\<close> loop: what the geometry script finds (the document, or the exception
  \<^verbatim>\<open>execute_script\<close>/\<^verbatim>\<open>evaluate\<close> raises, which the function does not catch) and the
  reading of \<^verbatim>\<open>time.time()\<close> at the deadline check. A script that ends before the loop
  does leaves the result \<open>WaitPolling\<close>: the loop is still running.
\<close>

definition deadline_passed :: "real option \<Rightarrow> real \<Rightarrow> bool" where
  "deadline_passed deadline clk = (case deadline of None \<Rightarrow> False | Some dl \<Rightarrow> clk \<ge> dl)"

text \<open>
  The tail of one pass whose probe was below the threshold:
  \<^verbatim>\<open>if deadline is not None and time.time() >= deadline: raise TimeoutError(...)\<close>, else
  \<^verbatim>\<open>time.sleep(poll_interval)\<close> and the next pass (\<open>later\<close>).
\<close>

definition wait_more ::
  "real option \<Rightarrow> real \<Rightarrow> event list \<times> wait_result \<Rightarrow> event list \<times> wait_result" where
  "wait_more deadline clk later =
     (if deadline_passed deadline clk
      then ([Probe, Log ''Timeout: captcha did not expand in time''], WaitRaised TimeoutError)
      else (Probe # Sleep 1.0 # fst later, snd later))"

fun wait_loop :: "real option \<Rightarrow> ((exn + document) \<times> real) list \<Rightarrow> event list \<times> wait_result" where
  "wait_loop deadline [] = ([], WaitPolling)"
| "wait_loop deadline ((Inl e, clk) # rest) = ([Probe], WaitRaised e)"
| "wait_loop deadline ((Inr d, clk) # rest) =
     (case get_viewport_and_crop d of
        (None, w, h) \<Rightarrow> wait_more deadline clk (wait_loop deadline rest)
      | (Some r, w, h) \<Rightarrow>
          if width r \<ge> MIN_SIZE \<and> height r \<ge> MIN_SIZE
          then ([Probe, Log ''Captcha expanded''], WaitReturned r w h)
          else wait_more deadline clk (wait_loop deadline rest))"

text \<open>
  \<^verbatim>\<open>deadline = (time.time() + timeout) if timeout is not None else None\<close>; \<open>start\<close> is
  that first clock reading.
\<close>

definition wait_expanded ::
  "real option \<Rightarrow> real \<Rightarrow> ((exn + document) \<times> real) list \<Rightarrow> event list \<times> wait_result" where
  "wait_expanded timeout start script =
     (case wait_loop (map_option (\<lambda>t. start + t) timeout) script of
        (evs, res) \<Rightarrow> (Log ''Waiting for captcha to expand'' # evs, res))"

section \<open>Input replay\<close>

subsection \<open>Selenium: \<^verbatim>\<open>_inside\<close>, \<^verbatim>\<open>_perform_click\<close>, \<^verbatim>\<open>_perform_drag\<close>\<close>

definition inside :: "int \<Rightarrow> int \<Rightarrow> crop_rect \<Rightarrow> bool" where
  "inside x y r = (left r \<le> x \<and> x < left r + width r \<and> top_y r \<le> y \<and> y < top_y r + height r)"

text \<open>
  \<^verbatim>\<open>_click_in_frame\<close>: after switching into the largest CAPTCHA frame and its first
  child frame, the script looks up \<^verbatim>\<open>document.elementFromPoint(x, y)\<close> and returns at
  once when there is none (\<open>hit\<close> is False); otherwise it dispatches mousedown, mouseup
  and click at \<open>(x, y)\<close>.
\<close>

definition click_in_frame :: "bool \<Rightarrow> int \<Rightarrow> int \<Rightarrow> gesture" where
  "click_in_frame hit ox oy =
     (NestedFrame, if hit then [PointerDown ox oy, PointerUp ox oy, ClickEvent ox oy] else [])"

text \<open>
  \<^verbatim>\<open>_click_main\<close>:
  \<^verbatim>\<open>ActionChains(driver).move_to_element_with_offset(body, x, y).click().perform()\<close>,
  a pointer move to the offset \<open>(x, y)\<close> from the \<^verbatim>\<open>body\<close> element, then press and release
  there. The numbers are the viewport coordinates the worker sent; Selenium measures them
  from the element (from its in-view centre in Selenium 4, from its top-left corner
  before), which the model records as \<open>OuterBody\<close>.
\<close>

definition click_main :: "int \<Rightarrow> int \<Rightarrow> gesture" where
  "click_main x y = (OuterBody, [PointerMove x y, PointerDown x y, PointerUp x y])"

text \<open>
  \<^verbatim>\<open>if crop and _inside(vx, vy, crop)\<close>: a dataclass instance is always truthy, so
  \<^verbatim>\<open>crop\<close> is false only when it is None.
\<close>

definition perform_click :: "bool \<Rightarrow> int \<Rightarrow> int \<Rightarrow> crop_rect option \<Rightarrow> gesture" where
  "perform_click hit vx vy crop =
     (case crop of
        None \<Rightarrow> click_main vx vy
      | Some c \<Rightarrow> if inside vx vy c then click_in_frame hit (vx - left c) (vy - top_y c)
                  else click_main vx vy)"

text \<open>
  One coordinate of an interpolated point in \<^verbatim>\<open>_drag_main\<close> and in Playwright's drag
  branch: \<^verbatim>\<open>t = i / 12.0; x = int(fx + (tx - fx) * t)\<close>. The difference is taken on
  Python integers; every integer that meets a float is converted to a float first.
\<close>

definition lerp_python :: "int \<Rightarrow> int \<Rightarrow> nat \<Rightarrow> int" where
  "lerp_python a b i =
     py_int (fl64 (fl64 (real_of_int a) + fl64 (fl64 (real_of_int (b - a)) * fl64 (real i / 12))))"

text \<open>
  The same in the script of \<^verbatim>\<open>_drag_in_frame\<close>:
  \<^verbatim>\<open>var t = i / 12, x = Math.round(fx + (tx - fx) * t)\<close>, where the arguments are
  JavaScript numbers already.
\<close>

definition lerp_js :: "int \<Rightarrow> int \<Rightarrow> nat \<Rightarrow> int" where
  "lerp_js a b i =
     js_round (fl64 (fl64 (real_of_int a)
                   + fl64 (fl64 (fl64 (real_of_int b) - fl64 (real_of_int a)) * fl64 (real i / 12))))"

definition interpolate_python :: "point \<Rightarrow> point \<Rightarrow> nat \<Rightarrow> point" where
  "interpolate_python from_xy to_xy i =
     (lerp_python (fst from_xy) (fst to_xy) i, lerp_python (snd from_xy) (snd to_xy) i)"

definition interpolate_js :: "point \<Rightarrow> point \<Rightarrow> nat \<Rightarrow> point" where
  "interpolate_js from_xy to_xy i =
     (lerp_js (fst from_xy) (fst to_xy) i, lerp_js (snd from_xy) (snd to_xy) i)"

text \<open>The twelve moves, \<^verbatim>\<open>for i in range(1, 13)\<close> and \<^verbatim>\<open>for (var i = 1; i <= 12; i++)\<close>.\<close>

definition interpolated_moves ::
  "(point \<Rightarrow> point \<Rightarrow> nat \<Rightarrow> point) \<Rightarrow> point \<Rightarrow> point \<Rightarrow> pointer_event list" where
  "interpolated_moves interp from_xy to_xy =
     map (\<lambda>i. case interp from_xy to_xy i of (x, y) \<Rightarrow> PointerMove x y) [1..<13]"

text \<open>
  \<^verbatim>\<open>_drag_in_frame\<close>: nothing when no element lies under the start point; otherwise
  mousedown at the start, twelve mousemove events, mouseup at the end point.
\<close>

definition drag_in_frame :: "bool \<Rightarrow> point \<Rightarrow> point \<Rightarrow> gesture" where
  "drag_in_frame hit from_xy to_xy =
     (NestedFrame,
      if hit then [PointerDown (fst from_xy) (snd from_xy)]
                  @ interpolated_moves interpolate_js from_xy to_xy
                  @ [PointerUp (fst to_xy) (snd to_xy)]
      else [])"

text \<open>
  \<^verbatim>\<open>_drag_main\<close>: \<^verbatim>\<open>move_to_element_with_offset(body, fx, fy).click_and_hold()\<close>,
  twelve \<^verbatim>\<open>move_to_element_with_offset(body, x, y)\<close>, then
  \<^verbatim>\<open>move_to_element_with_offset(body, tx, ty).release()\<close>.
\<close>

definition drag_main :: "point \<Rightarrow> point \<Rightarrow> gesture" where
  "drag_main from_xy to_xy =
     (OuterBody,
      [PointerMove (fst from_xy) (snd from_xy), PointerDown (fst from_xy) (snd from_xy)]
      @ interpolated_moves interpolate_python from_xy to_xy
      @ [PointerMove (fst to_xy) (snd to_xy), PointerUp (fst to_xy) (snd to_xy)])"

definition perform_drag :: "bool \<Rightarrow> point \<Rightarrow> point \<Rightarrow> crop_rect option \<Rightarrow> gesture" where
  "perform_drag hit from_xy to_xy crop =
     (case crop of
        None \<Rightarrow> drag_main from_xy to_xy
      | Some c \<Rightarrow>
          if inside (fst from_xy) (snd from_xy) c \<and> inside (fst to_xy) (snd to_xy) c
          then drag_in_frame hit (fst from_xy - left c, snd from_xy - top_y c)
                                 (fst to_xy - left c, snd to_xy - top_y c)
          else drag_main from_xy to_xy)"

subsection \<open>Playwright: the click and drag branches of \<^verbatim>\<open>_run_loop\<close>\<close>

text \<open>
  \<^verbatim>\<open>page.mouse.click(int(x), int(y))\<close> moves the mouse to the viewport point, presses and
  releases. The crop rectangle is not consulted.
\<close>

definition playwright_click :: "int \<Rightarrow> int \<Rightarrow> gesture" where
  "playwright_click x y = (OuterViewport, [PointerMove x y, PointerDown x y, PointerUp x y])"

text \<open>
  \<^verbatim>\<open>page.mouse.move(x1, y1); page.mouse.down();\<close> twelve \<^verbatim>\<open>page.mouse.move(x, y)\<close>;
  \<^verbatim>\<open>page.mouse.up()\<close>. Press and release carry no coordinates: they happen where the
  mouse is, the last point it was moved to.
\<close>

definition playwright_drag :: "point \<Rightarrow> point \<Rightarrow> gesture" where
  "playwright_drag from_xy to_xy =
     (let moves = interpolated_moves interpolate_python from_xy to_xy in
      (OuterViewport,
       [PointerMove (fst from_xy) (snd from_xy), PointerDown (fst from_xy) (snd from_xy)]
       @ moves
       @ [case last moves of PointerMove x y \<Rightarrow> PointerUp x y | e \<Rightarrow> e]))"

subsection \<open>Either backend\<close>

definition replay_click :: "backend \<Rightarrow> bool \<Rightarrow> int \<Rightarrow> int \<Rightarrow> crop_rect option \<Rightarrow> gesture" where
  "replay_click b hit x y crop =
     (case b of Selenium \<Rightarrow> perform_click hit x y crop | Playwright \<Rightarrow> playwright_click x y)"

definition replay_drag :: "backend \<Rightarrow> bool \<Rightarrow> point \<Rightarrow> point \<Rightarrow> crop_rect option \<Rightarrow> gesture" where
  "replay_drag b hit from_xy to_xy crop =
     (case b of Selenium \<Rightarrow> perform_drag hit from_xy to_xy crop
              | Playwright \<Rightarrow> playwright_drag from_xy to_xy)"

section \<open>Token Watcher: \<^verbatim>\<open>_get_token\<close>\<close>

text \<open>
  The argument is what the lookup of the response field gives: \<open>Inr None\<close> when there
  is no such element (Selenium raises NoSuchElementException, caught here; Playwright's
  script sees null and returns the empty string); \<open>Inr (Some v)\<close> where \<open>v\<close> is the
  value of the variable \<^verbatim>\<open>v\<close> (Selenium: \<^verbatim>\<open>(el.get_attribute("value") or "").strip()\<close>)
  or \<^verbatim>\<open>val\<close> (Playwright: \<^verbatim>\<open>(el.value || '').trim()\<close>), that is the field's text as
  the library call has stripped it; \<open>Inl e\<close> when the browser call raises anything
  else. Selenium lets that exception through; Playwright's
  \<^verbatim>\<open>except Exception: return None\<close> swallows all but KeyboardInterrupt. The result is
  \<^verbatim>\<open>v or None\<close>.
\<close>

definition get_token :: "backend \<Rightarrow> exn + string option \<Rightarrow> exn + string option" where
  "get_token b field =
     (case field of
        Inr None \<Rightarrow> Inr None
      | Inr (Some v) \<Rightarrow> (if v = [] then Inr None else Inr (Some v))
      | Inl e \<Rightarrow> (case b of
                   Selenium \<Rightarrow> Inl e
                 | Playwright \<Rightarrow> if e = KeyboardInterrupt then Inl e else Inr None))"

section \<open>Solve Loop Orchestrator: \<^verbatim>\<open>_run_loop\<close>\<close>

definition POLL_S :: real where
  "POLL_S = 0.12"

definition SCREENSHOT_INTERVAL_S :: real where
  "SCREENSHOT_INTERVAL_S = 0.2"

text \<open>
  The \<^verbatim>\<open>action\<close> member of a poll response, after \<^verbatim>\<open>int(...)\<close> of its coordinates:
  a click with its \<^verbatim>\<open>x\<close> and \<^verbatim>\<open>y\<close> (None when the key is missing or null), a drag
  with its \<^verbatim>\<open>from\<close> and \<^verbatim>\<open>to\<close> points (None when missing or empty), or a dict of
  another type.
\<close>

datatype action =
    ClickAction "int option" "int option"
  | DragAction "point option" "point option"
  | OtherAction

text \<open>
  The poll response: \<^verbatim>\<open>resp.get("status")\<close> (the empty string when absent) and
  \<^verbatim>\<open>resp.get("action")\<close> (None when absent or not a dict).
\<close>

record response =
  status :: string
  action :: "action option"

text \<open>
  What the world does during one pass of the \<^verbatim>\<open>while True\<close> loop, each field read only
  if the pass gets that far:
  \<^item> \<open>next_action\<close>: \<^verbatim>\<open>api.get_next_action\<close> returns a response or raises;
  \<^item> \<open>hit\<close>: whether the in-frame script finds an element under the gesture's start;
  \<^item> \<open>replay_exn\<close>: an exception raised while the gesture is replayed or during the
    80 ms pause after it;
  \<^item> \<open>token_field\<close>: the lookup of the response field (see \<open>get_token\<close>);
  \<^item> \<open>notify_exn\<close>: an exception raised by \<^verbatim>\<open>api.notify_solved\<close>;
  \<^item> \<open>now\<close>: the reading of \<^verbatim>\<open>time.perf_counter()\<close>;
  \<^item> \<open>probe\<close>, \<open>capture\<close>, \<open>upload_exn\<close>: the geometry probe, the screenshot capture
    (its base64 text) and \<^verbatim>\<open>api.update_screenshot\<close>, each of which may raise;
  \<^item> \<open>poll_sleep_interrupted\<close>: a KeyboardInterrupt arrives during
    \<^verbatim>\<open>time.sleep(POLL_S)\<close>;
  \<^item> \<open>backoff_interrupted\<close>: a KeyboardInterrupt arrives while the
    \<^verbatim>\<open>except Exception\<close> handler logs and sleeps.
\<close>

record iteration =
  next_action :: "exn + response"
  hit :: bool
  replay_exn :: "exn option"
  token_field :: "exn + string option"
  notify_exn :: "exn option"
  now :: real
  probe :: "exn + document"
  capture :: "exn + string"
  upload_exn :: "exn option"
  poll_sleep_interrupted :: bool
  backoff_interrupted :: bool

text \<open>
  How a part of the \<^verbatim>\<open>try\<close> body ends: it falls through to the next statement
  (carrying \<^verbatim>\<open>last_shot[0]\<close>), executes \<^verbatim>\<open>return\<close>, or raises.
\<close>

datatype flow = Next real | Return | Raised exn

definition then_do ::
  "event list \<times> flow \<Rightarrow> (real \<Rightarrow> event list \<times> flow) \<Rightarrow> event list \<times> flow" where
  "then_do r k =
     (case r of
        (evs, Next l) \<Rightarrow> (case k l of (evs', f) \<Rightarrow> (evs @ evs', f))
      | (evs, f) \<Rightarrow> (evs, f))"

text \<open>
  The gesture an action is replayed as, if it is replayed at all: a click needs both
  coordinates (\<^verbatim>\<open>if x is not None and y is not None\<close>), a drag both points
  (\<^verbatim>\<open>if fr and to\<close>).
\<close>

definition gesture_of :: "backend \<Rightarrow> bool \<Rightarrow> crop_rect option \<Rightarrow> action \<Rightarrow> (string \<times> gesture) option" where
  "gesture_of b h crop a =
     (case a of
        ClickAction (Some x) (Some y) \<Rightarrow> Some (''Worker action: click'', replay_click b h x y crop)
      | DragAction (Some fr) (Some to) \<Rightarrow> Some (''Worker action: drag'', replay_drag b h fr to crop)
      | _ \<Rightarrow> None)"

text \<open>
  Lines 299-313 (Selenium), 149-172 (Playwright): log, replay the action, pause 80 ms.
  When the replay raises, the trace still shows the gesture that was being replayed.
\<close>

definition action_stage ::
  "backend \<Rightarrow> crop_rect option \<Rightarrow> iteration \<Rightarrow> action option \<Rightarrow> real \<Rightarrow> event list \<times> flow" where
  "action_stage b crop it act last_shot =
     (case act of
        None \<Rightarrow> ([], Next last_shot)
      | Some a \<Rightarrow>
          (case gesture_of b (hit it) crop a of
             None \<Rightarrow> ([], Next last_shot)
           | Some (msg, g) \<Rightarrow>
               (case replay_exn it of
                  Some e \<Rightarrow> ([Log msg, Replay g], Raised e)
                | None \<Rightarrow> ([Log msg, Replay g, Sleep 0.08], Next last_shot))))"

text \<open>
  \<^verbatim>\<open>token = _get_token(driver)
  if token:
      api.notify_solved(task_id, token)
      return\<close>
\<close>

definition token_stage :: "backend \<Rightarrow> string \<Rightarrow> iteration \<Rightarrow> real \<Rightarrow> event list \<times> flow" where
  "token_stage b task_id it last_shot =
     (case get_token b (token_field it) of
        Inl e \<Rightarrow> ([], Raised e)
      | Inr None \<Rightarrow> ([], Next last_shot)
      | Inr (Some token) \<Rightarrow>
          (case notify_exn it of
             Some e \<Rightarrow> ([Log ''Captcha solved, submitting token...'', NotifySolved task_id token],
                        Raised e)
           | None \<Rightarrow> ([Log ''Captcha solved, submitting token...'', NotifySolved task_id token,
                       Log ''Token submitted successfully''], Return)))"

text \<open>
  The inner \<^verbatim>\<open>try ... except Exception as e: _log("Screenshot update error: %s" % e)\<close>:
  an exception derived from Exception is logged and the pass goes on with
  \<^verbatim>\<open>last_shot[0]\<close> unchanged; a KeyboardInterrupt passes through.
\<close>

definition shot_failed :: "event list \<Rightarrow> exn \<Rightarrow> real \<Rightarrow> event list \<times> flow" where
  "shot_failed evs e last_shot =
     (if e = KeyboardInterrupt then (evs, Raised e)
      else (evs @ [Log ''Screenshot update error''], Next last_shot))"

definition screenshot_stage :: "string \<Rightarrow> iteration \<Rightarrow> real \<Rightarrow> event list \<times> flow" where
  "screenshot_stage task_id it last_shot =
     (if now it - last_shot \<ge> SCREENSHOT_INTERVAL_S then
        (case probe it of
           Inl e \<Rightarrow> shot_failed [PerfCounter (now it), Probe] e last_shot
         | Inr d \<Rightarrow>
             (case capture it of
                Inl e \<Rightarrow> shot_failed [PerfCounter (now it), Probe, Capture] e last_shot
              | Inr b64 \<Rightarrow>
                  (case get_viewport_and_crop d of (rect, w, h) \<Rightarrow>
                     (case upload_exn it of
                        Some e \<Rightarrow>
                          shot_failed [PerfCounter (now it), Probe, Capture,
                            UpdateScreenshot task_id (''data:image/png;base64,'' @ b64) w h rect]
                            e last_shot
                      | None \<Rightarrow>
                          ([PerfCounter (now it), Probe, Capture,
                            UpdateScreenshot task_id (''data:image/png;base64,'' @ b64) w h rect,
                            SetLastShot (now it)], Next (now it))))))
      else ([PerfCounter (now it)], Next last_shot))"

definition sleep_stage :: "iteration \<Rightarrow> real \<Rightarrow> event list \<times> flow" where
  "sleep_stage it last_shot =
     (if poll_sleep_interrupted it then ([], Raised KeyboardInterrupt)
      else ([Sleep POLL_S], Next last_shot))"

text \<open>The body of the \<^verbatim>\<open>try\<close> statement, one pass.\<close>

definition iteration_body ::
  "backend \<Rightarrow> string \<Rightarrow> crop_rect option \<Rightarrow> real \<Rightarrow> iteration \<Rightarrow> event list \<times> flow" where
  "iteration_body b task_id crop last_shot it =
     (case next_action it of
        Inl e \<Rightarrow> ([GetNextAction task_id], Raised e)
      | Inr resp \<Rightarrow>
          if status resp = ''expired'' \<or> status resp = ''solved''
          then ([GetNextAction task_id, Log (''Session ended: '' @ status resp)], Return)
          else
            then_do ([GetNextAction task_id], Next last_shot) (\<lambda>l.
            then_do (action_stage b crop it (action resp) l) (\<lambda>l.
            then_do (token_stage b task_id it l) (\<lambda>l.
            then_do (screenshot_stage task_id it l) (\<lambda>l.
            sleep_stage it l)))))"

text \<open>
  How the loop has ended when the script of passes is used up: it returned, an exception
  left it, or it is still running.
\<close>

datatype outcome = Returned | Escaped exn | Running

definition prepend :: "event list \<Rightarrow> event list \<times> 'a \<Rightarrow> event list \<times> 'a" where
  "prepend evs r = (evs @ fst r, snd r)"

text \<open>
  The loop with its two handlers. \<^verbatim>\<open>except KeyboardInterrupt\<close> logs and returns.
  \<^verbatim>\<open>except Exception\<close> logs, sleeps one second and lets the loop go round; an
  interrupt that arrives inside this handler is outside the \<^verbatim>\<open>try\<close> body, so no
  handler of the loop catches it. \<open>last_shot\<close> is \<^verbatim>\<open>last_shot[0]\<close>, set from
  \<^verbatim>\<open>time.perf_counter()\<close> before the first pass.
\<close>

fun run_loop ::
  "backend \<Rightarrow> string \<Rightarrow> crop_rect option \<Rightarrow> real \<Rightarrow> iteration list \<Rightarrow> event list \<times> outcome" where
  "run_loop b task_id crop last_shot [] = ([], Running)"
| "run_loop b task_id crop last_shot (it # its) =
     (case iteration_body b task_id crop last_shot it of
        (evs, Return) \<Rightarrow> (evs, Returned)
      | (evs, Next last_shot') \<Rightarrow> prepend evs (run_loop b task_id crop last_shot' its)
      | (evs, Raised e) \<Rightarrow>
          if e = KeyboardInterrupt then (evs @ [Log ''Interrupted by user''], Returned)
          else if backoff_interrupted it then (evs @ [Log ''Loop error''], Escaped KeyboardInterrupt)
          else prepend (evs @ [Log ''Loop error'', Sleep 1.0]) (run_loop b task_id crop last_shot its))"

section \<open>Solve Loop Orchestrator: \<^verbatim>\<open>run_solve\<close>\<close>

text \<open>
  The dict \<^verbatim>\<open>api.create_task\<close> returns: \<^verbatim>\<open>res.get("errorId")\<close> and
  \<^verbatim>\<open>res.get("taskId")\<close>, None when the key is absent or null.
\<close>

record task =
  errorId :: "int option"
  taskId :: "string option"

text \<open>
  \<^verbatim>\<open>if res.get("errorId") != 0 or not res.get("taskId")\<close>: None differs from 0, and
  None and the empty string are falsy.
\<close>

definition create_failed :: "task \<Rightarrow> bool" where
  "create_failed res =
     (errorId res \<noteq> Some 0 \<or> (case taskId res of None \<Rightarrow> True | Some t \<Rightarrow> t = []))"

text \<open>
  The Checkbox Activator \<^verbatim>\<open>_open_checkbox_if_needed\<close> talks to the browser only; of it
  the model keeps how it ends: it completes, it raises (TimeoutError when the iframe does
  not appear in time, or a driver error), or it is still waiting for the iframe.
\<close>

datatype activator = Completes | Raises exn | Waits

text \<open>
  The world of one solve attempt: the activator's end, the first reading of
  \<^verbatim>\<open>time.time()\<close> and the script of the Expansion Waiter, what
  \<^verbatim>\<open>api.create_task\<close> returns or raises, the first screenshot capture, an exception of
  \<^verbatim>\<open>api.start_remote_session\<close>, the reading of \<^verbatim>\<open>time.perf_counter()\<close> that
  initialises \<^verbatim>\<open>last_shot\<close>, and the script of the steady-state loop.
\<close>

record solve_env =
  open_checkbox :: activator
  expand_start :: real
  expand_script :: "((exn + document) \<times> real) list"
  create_task_result :: "exn + task"
  first_capture :: "exn + string"
  start_session_exn :: "exn option"
  loop_start :: real
  loop_script :: "iteration list"

datatype solve_result = SolveReturned "string option" | SolveRaised exn | SolveRunning

text \<open>
  Lines 371-377 (Selenium), 226-233 (Playwright): the first screenshot,
  \<^verbatim>\<open>api.start_remote_session\<close>, the loop, \<^verbatim>\<open>return task_id\<close>.
\<close>

definition start_and_loop ::
  "backend \<Rightarrow> string \<Rightarrow> crop_rect \<Rightarrow> int \<Rightarrow> int \<Rightarrow> solve_env \<Rightarrow> string \<Rightarrow> event list \<times> solve_result" where
  "start_and_loop b page_url crop w h env task_id =
     (case first_capture env of
        Inl e \<Rightarrow> ([Log ''Task created'', Capture], SolveRaised e)
      | Inr b64 \<Rightarrow>
          (case start_session_exn env of
             Some e \<Rightarrow>
               ([Log ''Task created'', Capture,
                 StartRemoteSession task_id (''data:image/png;base64,'' @ b64) page_url w h (Some crop)],
                SolveRaised e)
           | None \<Rightarrow>
               (case run_loop b task_id (Some crop) (loop_start env) (loop_script env) of
                  (evs, r) \<Rightarrow>
                    ([Log ''Task created'', Capture,
                      StartRemoteSession task_id (''data:image/png;base64,'' @ b64) page_url w h (Some crop),
                      Log ''Waiting for worker to solve...''] @ evs,
                     (case r of
                        Returned \<Rightarrow> SolveReturned (Some task_id)
                      | Escaped e \<Rightarrow> SolveRaised e
                      | Running \<Rightarrow> SolveRunning)))))"

text \<open>
  Lines 365-370 (Selenium), 220-225 (Playwright). \<^verbatim>\<open>api.create_task\<close> is called outside
  any \<^verbatim>\<open>try\<close>. After the check, \<^verbatim>\<open>res["taskId"]\<close> is a non-empty string; the
  branch for a missing key (a KeyError) cannot be reached.
\<close>

definition create_and_run ::
  "backend \<Rightarrow> string \<Rightarrow> crop_rect \<Rightarrow> int \<Rightarrow> int \<Rightarrow> solve_env \<Rightarrow> event list \<times> solve_result" where
  "create_and_run b page_url crop w h env =
     (case create_task_result env of
        Inl e \<Rightarrow> ([Log ''Creating task...'', CreateTask page_url], SolveRaised e)
      | Inr res \<Rightarrow>
          if create_failed res
          then ([Log ''Creating task...'', CreateTask page_url, Log ''Create task failed''],
                SolveReturned None)
          else
            (case taskId res of
               None \<Rightarrow> ([Log ''Creating task...'', CreateTask page_url], SolveRaised OtherException)
             | Some task_id \<Rightarrow>
                 prepend [Log ''Creating task...'', CreateTask page_url]
                   (start_and_loop b page_url crop w h env task_id)))"

text \<open>
  \<^verbatim>\<open>if delay_after_captcha_load > 0: _log(...); time.sleep(delay_after_captcha_load)\<close>
\<close>

definition settle :: "real \<Rightarrow> event list" where
  "settle delay = (if delay > 0 then [Log ''Waiting after captcha load'', Sleep delay] else [])"

definition run_solve ::
  "backend \<Rightarrow> string \<Rightarrow> real option \<Rightarrow> real \<Rightarrow> solve_env \<Rightarrow> event list \<times> solve_result" where
  "run_solve b page_url wait_captcha_timeout delay_after_captcha_load env =
     (case open_checkbox env of
        Raises e \<Rightarrow> ([], SolveRaised e)
      | Waits \<Rightarrow> ([], SolveRunning)
      | Completes \<Rightarrow>
          (case wait_expanded wait_captcha_timeout (expand_start env) (expand_script env) of
             (evs, WaitRaised e) \<Rightarrow> (evs, SolveRaised e)
           | (evs, WaitPolling) \<Rightarrow> (evs, SolveRunning)
           | (evs, WaitReturned crop w h) \<Rightarrow>
               prepend (evs @ settle delay_after_captcha_load)
                 (create_and_run b page_url crop w h env)))"

section \<open>Observations on runs\<close>

text \<open>
  A probe of the Expansion Waiter that completes and finds no rectangle of the minimum
  interactive size.
\<close>

definition below_threshold :: "exn + document \<Rightarrow> bool" where
  "below_threshold p =
     (case p of Inl e \<Rightarrow> False | Inr d \<Rightarrow> \<not> is_expanded (fst (get_viewport_and_crop d)))"

fun is_Log :: "event \<Rightarrow> bool" where
  "is_Log (Log _) = True"
| "is_Log _ = False"

fun is_move :: "pointer_event \<Rightarrow> bool" where
  "is_move (PointerMove _ _) = True"
| "is_move _ = False"

text \<open>The values stored in \<^verbatim>\<open>last_shot[0]\<close> in the course of a run, in order.\<close>

fun shot_times :: "event list \<Rightarrow> real list" where
  "shot_times [] = []"
| "shot_times (SetLastShot t # es) = t # shot_times es"
| "shot_times (e # es) = shot_times es"

text \<open>
  For every call of \<^verbatim>\<open>api.update_screenshot\<close> in a run, the reading of
  \<^verbatim>\<open>time.perf_counter()\<close> that let it through (the latest reading before the call;
  \<open>clk\<close> stands for the reading before the trace begins).
\<close>

fun push_times :: "real \<Rightarrow> event list \<Rightarrow> real list" where
  "push_times clk [] = []"
| "push_times clk (PerfCounter t # es) = push_times t es"
| "push_times clk (UpdateScreenshot task_id shot w h rect # es) = clk # push_times clk es"
| "push_times clk (e # es) = push_times clk es"

text \<open>Successive instants at least \<^verbatim>\<open>SCREENSHOT_INTERVAL_S\<close> apart, the first from \<open>t0\<close>.\<close>

fun spaced :: "real \<Rightarrow> real list \<Rightarrow> bool" where
  "spaced t0 [] = True"
| "spaced t0 (t # ts) = (SCREENSHOT_INTERVAL_S \<le> t - t0 \<and> spaced t ts)"

fun is_notify :: "event \<Rightarrow> bool" where
  "is_notify (NotifySolved _ _) = True"
| "is_notify _ = False"

section \<open>Example inputs\<close>

text \<open>
  A page with three CAPTCHA iframes: a strip 49.5 pixels high, the checkbox frame and the
  expanded challenge frame; the window reports no inner height.
\<close>

definition example_document :: document where
  "example_document =
     \<lparr>iframes = [\<lparr>dom_left = 0, dom_top = 0, dom_width = 300, dom_height = 49.5\<rparr>,
                 \<lparr>dom_left = 10.5, dom_top = 20.2, dom_width = 303, dom_height = 78\<rparr>,
                 \<lparr>dom_left = 100, dom_top = 50, dom_width = 400, dom_height = 600.4\<rparr>],
      innerWidth = 1024, innerHeight = 0\<rparr>"

text \<open>The same page before the challenge opens: only the checkbox frame.\<close>

definition checkbox_document :: document where
  "checkbox_document =
     \<lparr>iframes = [\<lparr>dom_left = 10.5, dom_top = 20.2, dom_width = 303, dom_height = 78\<rparr>],
      innerWidth = 1024, innerHeight = 768\<rparr>"

definition example_wait_script :: "((exn + document) \<times> real) list" where
  "example_wait_script =
     [(Inr checkbox_document, 0.5), (Inr checkbox_document, 1.6), (Inr example_document, 2.7)]"

text \<open>The crop rectangle of the specification's click scenario.\<close>

definition example_crop :: crop_rect where
  "example_crop = \<lparr>left = 20, top_y = 10, width = 500, height = 500\<rparr>"

text \<open>
  A pass of the loop in which nothing happens: the session is active, no action is
  pending, the response field is absent, and every call succeeds.
\<close>

definition quiet_iteration :: iteration where
  "quiet_iteration =
     \<lparr>next_action = Inr \<lparr>status = ''active'', action = None\<rparr>, hit = True, replay_exn = None,
      token_field = Inr None, notify_exn = None, now = 0, probe = Inr example_document,
      capture = Inr ''iVBOR'', upload_exn = None, poll_sleep_interrupted = False,
      backoff_interrupted = False\<rparr>"

text \<open>The widget after it has moved and shrunk: one 300 x 300 frame at (200, 200).\<close>

definition moved_document :: document where
  "moved_document =
     \<lparr>iframes = [\<lparr>dom_left = 200, dom_top = 200, dom_width = 300, dom_height = 300\<rparr>],
      innerWidth = 1024, innerHeight = 768\<rparr>"

text \<open>
  Two passes: the first pushes a screenshot and probes the moved widget; the second
  receives a click at (100, 50).
\<close>

definition stale_crop_script :: "iteration list" where
  "stale_crop_script =
     [quiet_iteration\<lparr>now := 0.3, probe := Inr moved_document\<rparr>,
      quiet_iteration\<lparr>next_action :=
          Inr \<lparr>status = ''active'', action = Some (ClickAction (Some 100) (Some 50))\<rparr>,
        now := 0.42\<rparr>]"

text \<open>
  Two passes that both see the token \<^verbatim>\<open>abc123\<close>; \<^verbatim>\<open>api.notify_solved\<close> raises in the
  first and succeeds in the second.
\<close>

definition retry_script :: "iteration list" where
  "retry_script =
     [quiet_iteration\<lparr>token_field := Inr (Some ''abc123''), notify_exn := Some OtherException\<rparr>,
      quiet_iteration\<lparr>token_field := Inr (Some ''abc123'')\<rparr>]"

text \<open>
  Two passes, 250 ms and 400 ms after the loop started; \<^verbatim>\<open>api.update_screenshot\<close> raises
  in the first.
\<close>

definition failed_upload_script :: "iteration list" where
  "failed_upload_script =
     [quiet_iteration\<lparr>now := 0.25, upload_exn := Some OtherException\<rparr>,
      quiet_iteration\<lparr>now := 0.4\<rparr>]"

text \<open>
  Three passes: the poll fails, then a pass with nothing to do, then the user interrupts
  the poll.
\<close>

definition interrupted_script :: "iteration list" where
  "interrupted_script =
     [quiet_iteration\<lparr>next_action := Inl OtherException\<rparr>,
      quiet_iteration\<lparr>now := 0.1\<rparr>,
      quiet_iteration\<lparr>next_action := Inl KeyboardInterrupt\<rparr>]"

text \<open>
  A solve attempt in which everything succeeds up to the loop, and the loop is
  \<open>interrupted_script\<close>.
\<close>

definition example_env :: solve_env where
  "example_env =
     \<lparr>open_checkbox = Completes, expand_start = 0, expand_script = example_wait_script,
      create_task_result = Inr \<lparr>errorId = Some 0, taskId = Some ''task-1''\<rparr>,
      first_capture = Inr ''iVBOR'', start_session_exn = None, loop_start = 0,
      loop_script = interrupted_script\<rparr>"

section \<open>Doubles and gestures\<close>

lemma round_half_even_of_int: "round_half_even (real_of_int m) = m"
  by (simp add: round_half_even_def)

lemma pow2_nonpos: "k \<le> 0 \<Longrightarrow> pow2 k = 1 / 2 ^ nat (- k)"
  by (auto simp: pow2_def)

lemma binary_exponent_of_int:
  assumes "n \<noteq> 0" and "\<bar>n\<bar> < 2 ^ 53"
  shows "binary_exponent (real_of_int n) \<le> 52"
proof -
  from assms(1) have pos: "0 < \<bar>n\<bar>" by simp
  then have one: "1 \<le> \<bar>real_of_int n\<bar>" by linarith
  have fl64: "\<lfloor>\<bar>real_of_int n\<bar>\<rfloor> = \<bar>n\<bar>"
    by (metis floor_of_int of_int_abs)
  from bitlen_bounds [OF pos] have "(2::int) ^ nat (bitlen \<bar>n\<bar> - 1) \<le> \<bar>n\<bar>" by simp
  with assms(2) have lt: "(2::int) ^ nat (bitlen \<bar>n\<bar> - 1) < 2 ^ 53" by linarith
  have "nat (bitlen \<bar>n\<bar> - 1) < 53"
    by (rule power_less_imp_less_exp [OF _ lt]) simp
  then have "bitlen \<bar>n\<bar> - 1 \<le> 52" by linarith
  with one fl64 show ?thesis by (simp add: binary_exponent_def)
qed

lemma fl64_of_int:
  assumes "\<bar>n\<bar> < 2 ^ 53"
  shows "fl64 (real_of_int n) = real_of_int n"
proof (cases "n = 0")
  case True
  then show ?thesis by (simp add: fl64_def)
next
  case False
  define k where "k = nat (52 - binary_exponent (real_of_int n))"
  from binary_exponent_of_int [OF False assms]
  have p: "pow2 (binary_exponent (real_of_int n) - 52) = 1 / 2 ^ k"
    by (simp add: pow2_nonpos k_def)
  have "real_of_int n / (1 / 2 ^ k) = real_of_int (n * 2 ^ k)" by simp
  then have "round_half_even (real_of_int n / (1 / 2 ^ k)) = n * 2 ^ k"
    by (simp only: round_half_even_of_int)
  with False show ?thesis
    by (simp add: fl64_def p)
qed

lemma js_round_of_int: "js_round (real_of_int n) = n"
  unfolding js_round_def by linarith

lemma py_int_of_int: "py_int (real_of_int n) = n"
  unfolding py_int_def by simp

lemma fl64_one: "fl64 1 = 1"
  using fl64_of_int [of 1] by simp

lemma lerp_python_12:
  assumes "\<bar>a\<bar> < 2 ^ 52" "\<bar>b\<bar> < 2 ^ 52"
  shows "lerp_python a b 12 = b"
proof -
  have e: "(2::int) ^ 53 = 2 ^ 52 + 2 ^ 52" by simp
  from assms e have d: "\<bar>b - a\<bar> < 2 ^ 53" and a: "\<bar>a\<bar> < 2 ^ 53" and b: "\<bar>b\<bar> < 2 ^ 53"
    by linarith+
  have s: "real_of_int a + real_of_int (b - a) = real_of_int b" by simp
  show ?thesis
    unfolding lerp_python_def
    by (simp only: of_nat_numeral divide_self_if numeral_neq_zero if_False fl64_one mult_1_right
        fl64_of_int [OF d] fl64_of_int [OF a] s fl64_of_int [OF b] py_int_of_int)
qed

lemma lerp_js_12:
  assumes "\<bar>a\<bar> < 2 ^ 52" "\<bar>b\<bar> < 2 ^ 52"
  shows "lerp_js a b 12 = b"
proof -
  have e: "(2::int) ^ 53 = 2 ^ 52 + 2 ^ 52" by simp
  from assms e have d: "\<bar>b - a\<bar> < 2 ^ 53" and a: "\<bar>a\<bar> < 2 ^ 53" and b: "\<bar>b\<bar> < 2 ^ 53"
    by linarith+
  have m: "real_of_int b - real_of_int a = real_of_int (b - a)" by simp
  have s: "real_of_int a + real_of_int (b - a) = real_of_int b" by simp
  show ?thesis
    unfolding lerp_js_def
    by (simp only: of_nat_numeral divide_self_if numeral_neq_zero if_False fl64_one mult_1_right
        fl64_of_int [OF a] fl64_of_int [OF b] m fl64_of_int [OF d] s js_round_of_int)
qed

lemma interpolate_python_12:
  "\<bar>fst f\<bar> < 2 ^ 52 \<Longrightarrow> \<bar>snd f\<bar> < 2 ^ 52 \<Longrightarrow> \<bar>fst t\<bar> < 2 ^ 52 \<Longrightarrow> \<bar>snd t\<bar> < 2 ^ 52 \<Longrightarrow>
   interpolate_python f t 12 = t"
  by (simp add: interpolate_python_def lerp_python_12)

lemma interpolate_js_12:
  "\<bar>fst f\<bar> < 2 ^ 52 \<Longrightarrow> \<bar>snd f\<bar> < 2 ^ 52 \<Longrightarrow> \<bar>fst t\<bar> < 2 ^ 52 \<Longrightarrow> \<bar>snd t\<bar> < 2 ^ 52 \<Longrightarrow>
   interpolate_js f t 12 = t"
  by (simp add: interpolate_js_def lerp_js_12)

lemma upt_1_13: "[Suc 0..<13] = [1, 2, 3, 4, 5, 6, 7, 8, 9, 10, 11, 12::nat]"
  by (simp add: upt_conv_Cons)

lemma interpolated_moves_length: "length (interpolated_moves interp from_xy to_xy) = 12"
  by (simp add: interpolated_moves_def)

lemma interpolated_moves_nth:
  "i < 12 \<Longrightarrow> interpolated_moves interp from_xy to_xy ! i
     = PointerMove (fst (interp from_xy to_xy (i + 1))) (snd (interp from_xy to_xy (i + 1)))"
  by (simp add: interpolated_moves_def case_prod_beta)

lemma interpolated_moves_last:
  "last (interpolated_moves interp from_xy to_xy)
     = PointerMove (fst (interp from_xy to_xy 12)) (snd (interp from_xy to_xy 12))"
  by (simp add: interpolated_moves_def upt_1_13 case_prod_beta)

lemma interpolated_moves_all_moves:
  "filter is_move (interpolated_moves interp from_xy to_xy) = interpolated_moves interp from_xy to_xy"
  by (simp add: interpolated_moves_def case_prod_beta)

lemma playwright_drag_events:
  "playwright_drag from_xy to_xy =
     (OuterViewport, PointerMove (fst from_xy) (snd from_xy) # PointerDown (fst from_xy) (snd from_xy)
        # interpolated_moves interpolate_python from_xy to_xy
        @ [PointerUp (fst (interpolate_python from_xy to_xy 12))
                     (snd (interpolate_python from_xy to_xy 12))])"
  by (simp add: playwright_drag_def Let_def interpolated_moves_last)

lemma perform_click_routed:
  "inside x y c \<Longrightarrow>
   perform_click h x y (Some c) = click_in_frame h (x - left c) (y - top_y c)"
  by (simp add: perform_click_def)

lemma perform_click_outer:
  "\<not> (\<exists>c. crop = Some c \<and> inside x y c) \<Longrightarrow> perform_click h x y crop = click_main x y"
  by (cases crop) (simp_all add: perform_click_def)

lemma perform_drag_routed:
  "inside (fst f) (snd f) c \<Longrightarrow> inside (fst t) (snd t) c \<Longrightarrow>
   perform_drag h f t (Some c)
     = drag_in_frame h (fst f - left c, snd f - top_y c) (fst t - left c, snd t - top_y c)"
  by (simp add: perform_drag_def)

lemma perform_drag_outer:
  "\<not> (\<exists>c. crop = Some c \<and> inside (fst f) (snd f) c \<and> inside (fst t) (snd t) c) \<Longrightarrow>
   perform_drag h f t crop = drag_main f t"
  by (cases crop) (auto simp: perform_drag_def)

section \<open>Frame Locator\<close>

lemma qualifies_area: "qualifies r \<Longrightarrow> 2500 \<le> area r"
proof -
  assume "qualifies r"
  then have w: "50 \<le> dom_width r" and h: "50 \<le> dom_height r"
    by (simp_all add: qualifies_def)
  have "50 * 50 \<le> dom_width r * dom_height r"
    by (rule mult_mono) (use w h in simp_all)
  then show ?thesis by (simp add: area_def)
qed

lemma scan_iframes_Some: "scan_iframes rs (Some b) a \<noteq> None"
  by (induction rs arbitrary: b a) auto

lemma scan_iframes_None:
  "a < 2500 \<Longrightarrow> (scan_iframes rs None a = None) = (\<forall>r \<in> set rs. \<not> qualifies r)"
proof (induction rs)
  case Nil
  then show ?case by simp
next
  case (Cons r rs)
  show ?case
  proof (cases "qualifies r")
    case True
    with qualifies_area [of r] Cons.prems have "dom_width r * dom_height r > a"
      by (simp add: area_def)
    with True show ?thesis
      by (simp add: qualifies_def scan_iframes_Some)
  next
    case False
    with Cons show ?thesis by (auto simp: qualifies_def)
  qed
qed

lemma scan_iframes_member:
  "scan_iframes rs best a = Some r \<Longrightarrow> best = Some r \<or> (r \<in> set rs \<and> qualifies r)"
  by (induction rs arbitrary: best a) (auto simp: qualifies_def split: if_splits)

lemma scan_iframes_max:
  "scan_iframes rs best a = Some r \<Longrightarrow> (\<And>b. best = Some b \<Longrightarrow> a = area b) \<Longrightarrow>
     a \<le> area r \<and> (\<forall>r' \<in> set rs. qualifies r' \<longrightarrow> area r' \<le> area r)"
proof (induction rs arbitrary: best a)
  case Nil
  then show ?case by simp
next
  case (Cons x rs)
  show ?case
  proof (cases "qualifies x \<and> area x > a")
    case True
    with Cons.prems(1) have "scan_iframes rs (Some x) (area x) = Some r"
      by (simp add: qualifies_def area_def)
    from Cons.IH [OF this] have "area x \<le> area r \<and> (\<forall>r' \<in> set rs. qualifies r' \<longrightarrow> area r' \<le> area r)"
      by simp
    with True show ?thesis by auto
  next
    case False
    with Cons.prems(1) have "scan_iframes rs best a = Some r"
      by (auto simp: qualifies_def area_def split: if_splits)
    from Cons.IH [OF this Cons.prems(2)]
    have "a \<le> area r \<and> (\<forall>r' \<in> set rs. qualifies r' \<longrightarrow> area r' \<le> area r)" by simp
    with False show ?thesis by auto
  qed
qed

lemma js_round_ge: "50 \<le> x \<Longrightarrow> 50 \<le> js_round x"
  unfolding js_round_def by linarith

text \<open>
  Claim C7. For every document, the Frame Locator returns the viewport size (1280 and 720
  standing in for a zero \<^verbatim>\<open>innerWidth\<close> and \<^verbatim>\<open>innerHeight\<close>, as the script's
  \<^verbatim>\<open>||\<close> does); it returns no rectangle exactly when every CAPTCHA iframe has a width or
  a height below 50; and a rectangle it returns is the rounded bounding box of an iframe
  that was not discarded and whose area no other such iframe exceeds, so both its
  dimensions are at least 50. The function only reads the document: it is a function of
  it.
\<close>

theorem frame_locator_largest_qualifying:
  "fst (snd (get_viewport_and_crop d)) = viewportW d \<and>
   snd (snd (get_viewport_and_crop d)) = viewportH d \<and>
   (fst (get_viewport_and_crop d) = None) = (\<forall>r \<in> set (iframes d). \<not> qualifies r) \<and>
   (\<forall>c. fst (get_viewport_and_crop d) = Some c \<longrightarrow>
      50 \<le> width c \<and> 50 \<le> height c \<and>
      (\<exists>r \<in> set (iframes d). qualifies r \<and> c = round_rect r \<and>
         (\<forall>r' \<in> set (iframes d). qualifies r' \<longrightarrow> area r' \<le> area r)))"
proof -
  have vp: "fst (snd (get_viewport_and_crop d)) = viewportW d"
    "snd (snd (get_viewport_and_crop d)) = viewportH d"
    by (simp_all add: get_viewport_and_crop_def split: option.splits)
  have none: "(fst (get_viewport_and_crop d) = None) = (\<forall>r \<in> set (iframes d). \<not> qualifies r)"
    using scan_iframes_None [of 0 "iframes d"]
    by (cases "scan_iframes (iframes d) None 0") (auto simp: get_viewport_and_crop_def)
  have some: "50 \<le> width c \<and> 50 \<le> height c \<and>
      (\<exists>r \<in> set (iframes d). qualifies r \<and> c = round_rect r \<and>
         (\<forall>r' \<in> set (iframes d). qualifies r' \<longrightarrow> area r' \<le> area r))"
    if c: "fst (get_viewport_and_crop d) = Some c" for c
  proof -
    from c obtain r where r: "scan_iframes (iframes d) None 0 = Some r" and cr: "c = round_rect r"
      by (auto simp: get_viewport_and_crop_def split: option.splits)
    from scan_iframes_member [OF r] have mem: "r \<in> set (iframes d)" and q: "qualifies r"
      by simp_all
    from scan_iframes_max [OF r] have mx: "\<forall>r' \<in> set (iframes d). qualifies r' \<longrightarrow> area r' \<le> area r"
      by simp
    from q have "50 \<le> width c" "50 \<le> height c"
      by (simp_all add: cr round_rect_def qualifies_def js_round_ge)
    with mem q cr mx show ?thesis by blast
  qed
  from vp none some show ?thesis by blast
qed

theorem frame_locator_largest_qualifying_witness:
  "get_viewport_and_crop example_document
     = (Some \<lparr>left = 100, top_y = 50, width = 400, height = 600\<rparr>, 1024, 720) \<and>
   fst (get_viewport_and_crop checkbox_document)
     = Some \<lparr>left = 11, top_y = 20, width = 303, height = 78\<rparr> \<and>
   get_viewport_and_crop \<lparr>iframes = [\<lparr>dom_left = 0, dom_top = 0, dom_width = 300, dom_height = 49.5\<rparr>],
      innerWidth = 800, innerHeight = 600\<rparr> = (None, 800, 600)"
  using frame_locator_largest_qualifying [of example_document]
  by (simp add: example_document_def checkbox_document_def get_viewport_and_crop_def
      round_rect_def js_round_def viewportW_def viewportH_def)

section \<open>Expansion Waiter\<close>

lemma wait_loop_returned:
  "snd (wait_loop dl script) = WaitReturned r w h \<Longrightarrow> MIN_SIZE \<le> width r \<and> MIN_SIZE \<le> height r"
proof (induction dl script rule: wait_loop.induct)
  case (1 deadline)
  then show ?case by simp
next
  case (2 deadline e clk rest)
  then show ?case by simp
next
  case (3 deadline d clk rest)
  then show ?case
    by (auto simp: wait_more_def split: prod.splits option.splits if_splits)
qed

lemma wait_loop_below:
  "below_threshold (Inr d) \<Longrightarrow>
   wait_loop dl ((Inr d, clk) # rest) = wait_more dl clk (wait_loop dl rest)"
  by (auto simp: below_threshold_def is_expanded_def split: prod.splits option.splits)

lemma wait_loop_timeout:
  "\<forall>pc \<in> set pre. below_threshold (fst pc) \<Longrightarrow> below_threshold p \<Longrightarrow> dl \<le> clk \<Longrightarrow>
   snd (wait_loop (Some dl) (pre @ (p, clk) # rest)) = WaitRaised TimeoutError"
proof (induction pre)
  case Nil
  then obtain d where "p = Inr d" by (cases p) (auto simp: below_threshold_def)
  with Nil show ?case
    by (simp add: wait_loop_below wait_more_def deadline_passed_def del: wait_loop.simps(3))
next
  case (Cons a pre)
  obtain q c where a: "a = (q, c)" by (cases a)
  with Cons.prems obtain d where q: "q = Inr d" and b: "below_threshold (Inr d)"
    by (cases q) (auto simp: below_threshold_def)
  from Cons have "snd (wait_loop (Some dl) (pre @ (p, clk) # rest)) = WaitRaised TimeoutError"
    by simp
  then show ?case
    by (simp add: a q wait_loop_below [OF b] wait_more_def del: wait_loop.simps(3))
qed

lemma wait_loop_no_timeout:
  "\<forall>pc \<in> set script. below_threshold (fst pc) \<Longrightarrow>
   wait_loop None script = (concat (map (\<lambda>_. [Probe, Sleep 1]) script), WaitPolling)"
proof (induction script)
  case Nil
  then show ?case by simp
next
  case (Cons a script)
  obtain q c where a: "a = (q, c)" by (cases a)
  with Cons.prems obtain d where q: "q = Inr d" and b: "below_threshold (Inr d)"
    by (cases q) (auto simp: below_threshold_def)
  from Cons show ?case
    by (simp add: a q wait_loop_below [OF b] wait_more_def deadline_passed_def del: wait_loop.simps(3))
qed

lemma wait_loop_expands:
  "\<forall>pc \<in> set pre. below_threshold (fst pc) \<and> \<not> deadline_passed dl (snd pc) \<Longrightarrow>
   get_viewport_and_crop d = (Some r, w, h) \<Longrightarrow> MIN_SIZE \<le> width r \<Longrightarrow> MIN_SIZE \<le> height r \<Longrightarrow>
   snd (wait_loop dl (pre @ (Inr d, clk) # rest)) = WaitReturned r w h"
proof (induction pre)
  case Nil
  then show ?case by simp
next
  case (Cons a pre)
  obtain q c where a: "a = (q, c)" by (cases a)
  with Cons.prems obtain d' where q: "q = Inr d'" and b: "below_threshold (Inr d')"
    by (cases q) (auto simp: below_threshold_def)
  from Cons have "snd (wait_loop dl (pre @ (Inr d, clk) # rest)) = WaitReturned r w h"
    by simp
  moreover from Cons.prems a have "\<not> deadline_passed dl c" by simp
  ultimately show ?case
    by (simp add: a q wait_loop_below [OF b] wait_more_def del: wait_loop.simps(3))
qed

lemma wait_loop_cadence:
  "\<exists>n. filter (\<lambda>e. \<not> is_Log e) (fst (wait_loop dl script))
        = concat (replicate n [Probe, Sleep 1])
          @ (if snd (wait_loop dl script) = WaitPolling then [] else [Probe])"
proof (induction dl script rule: wait_loop.induct)
  case (1 deadline)
  show ?case by (rule exI [of _ 0]) simp
next
  case (2 deadline e clk rest)
  show ?case by (rule exI [of _ 0]) simp
next
  case (3 deadline d clk rest)
  obtain rect w h where g: "get_viewport_and_crop d = (rect, w, h)"
    by (cases "get_viewport_and_crop d")
  show ?case
  proof (cases "below_threshold (Inr d)")
    case False
    with g obtain r where "rect = Some r" "MIN_SIZE \<le> width r" "MIN_SIZE \<le> height r"
      by (cases rect) (auto simp: below_threshold_def is_expanded_def)
    with g show ?thesis by (intro exI [of _ 0]) simp
  next
    case True
    note step = wait_loop_below [OF True, of deadline clk rest]
    show ?thesis
    proof (cases "deadline_passed deadline clk")
      case True
      then show ?thesis by (intro exI [of _ 0]) (simp add: step wait_more_def del: wait_loop.simps(3))
    next
      case False
      have "\<exists>n. filter (\<lambda>e. \<not> is_Log e) (fst (wait_loop deadline rest))
        = concat (replicate n [Probe, Sleep 1])
          @ (if snd (wait_loop deadline rest) = WaitPolling then [] else [Probe])"
        using "3.IH" True g
        by (cases rect) (auto simp: below_threshold_def is_expanded_def)
      then obtain n where n: "filter (\<lambda>e. \<not> is_Log e) (fst (wait_loop deadline rest))
        = concat (replicate n [Probe, Sleep 1])
          @ (if snd (wait_loop deadline rest) = WaitPolling then [] else [Probe])" ..
      show ?thesis
        by (rule exI [of _ "Suc n"]) (simp add: step wait_more_def False n del: wait_loop.simps(3))
    qed
  qed
qed

text \<open>
  Claim C6, as stated, fails when the budget elapses during a sleep and the next probe
  finds the widget expanded. With a timeout of 1 s from clock 0, the first probe is below
  the threshold and its deadline check reads 0.5; the waiter sleeps one second, so the
  budget has elapsed; the second probe is at the threshold and is returned, with no
  deadline check (one made then would read 1.6 and find the deadline passed).
\<close>

theorem late_expansion_counterexample:
  "wait_expanded (Some 1) 0 [(Inr checkbox_document, 0.5), (Inr example_document, 1.6)]
     = ([Log ''Waiting for captcha to expand'', Probe, Sleep 1, Probe, Log ''Captcha expanded''],
        WaitReturned \<lparr>left = 100, top_y = 50, width = 400, height = 600\<rparr> 1024 720) \<and>
   deadline_passed (Some (0 + 1)) 1.6"
  by (simp add: example_document_def checkbox_document_def
      wait_expanded_def wait_more_def deadline_passed_def MIN_SIZE_def
      get_viewport_and_crop_def round_rect_def js_round_def viewportW_def viewportH_def)

text \<open>
  Claim C6, amended. The Expansion Waiter returns a rectangle only if its width and
  height are both at least 260. Log lines apart, its trace is probe, one-second sleep,
  probe, one-second sleep, ..., ending with a probe unless it is still polling. The
  deadline \<open>start + t\<close> is checked only after a probe below the threshold, before the
  sleep: when such a check finds the clock at or past the deadline and no probe so far
  reached the threshold, the waiter raises TimeoutError. With no timeout, as long as
  every probe stays below the threshold it keeps polling: after any number of passes it
  has probed and slept once per pass and has neither returned nor raised. The first
  probe that reaches the threshold is returned, provided no earlier deadline check found
  the deadline passed, whatever the clock reads by then: also when the budget elapsed
  during the sleep before it.
\<close>

theorem expansion_waiter_contract:
  "(snd (wait_expanded timeout start script) = WaitReturned r w h \<longrightarrow>
      260 \<le> width r \<and> 260 \<le> height r) \<and>
   (\<exists>n. filter (\<lambda>e. \<not> is_Log e) (fst (wait_expanded timeout start script))
        = concat (replicate n [Probe, Sleep 1])
          @ (if snd (wait_expanded timeout start script) = WaitPolling then [] else [Probe])) \<and>
   ((\<forall>pc \<in> set pre. below_threshold (fst pc)) \<and> below_threshold p \<and> start + t \<le> clk \<longrightarrow>
      snd (wait_expanded (Some t) start (pre @ (p, clk) # rest)) = WaitRaised TimeoutError) \<and>
   ((\<forall>pc \<in> set script. below_threshold (fst pc)) \<longrightarrow>
      wait_expanded None start script
        = (Log ''Waiting for captcha to expand'' # concat (map (\<lambda>_. [Probe, Sleep 1]) script),
           WaitPolling)) \<and>
   ((\<forall>pc \<in> set pre'. below_threshold (fst pc) \<and>
        \<not> deadline_passed (map_option (\<lambda>t. start + t) timeout) (snd pc)) \<and>
    get_viewport_and_crop d = (Some r', w', h') \<and> 260 \<le> width r' \<and> 260 \<le> height r' \<longrightarrow>
      snd (wait_expanded timeout start (pre' @ (Inr d, clk') # rest')) = WaitReturned r' w' h')"
proof -
  have a: "snd (wait_expanded timeout start script) = WaitReturned r w h \<longrightarrow>
      260 \<le> width r \<and> 260 \<le> height r"
    using wait_loop_returned [of "map_option (\<lambda>t. start + t) timeout" script r w h]
    by (simp add: wait_expanded_def MIN_SIZE_def case_prod_beta)
  have b: "\<exists>n. filter (\<lambda>e. \<not> is_Log e) (fst (wait_expanded timeout start script))
        = concat (replicate n [Probe, Sleep 1])
          @ (if snd (wait_expanded timeout start script) = WaitPolling then [] else [Probe])"
    using wait_loop_cadence [of "map_option (\<lambda>t. start + t) timeout" script]
    by (simp add: wait_expanded_def case_prod_beta)
  have c: "(\<forall>pc \<in> set pre. below_threshold (fst pc)) \<and> below_threshold p \<and> start + t \<le> clk \<longrightarrow>
      snd (wait_expanded (Some t) start (pre @ (p, clk) # rest)) = WaitRaised TimeoutError"
    using wait_loop_timeout [of pre p "start + t" clk rest]
    by (simp add: wait_expanded_def case_prod_beta)
  have d: "(\<forall>pc \<in> set script. below_threshold (fst pc)) \<longrightarrow>
      wait_expanded None start script
        = (Log ''Waiting for captcha to expand'' # concat (map (\<lambda>_. [Probe, Sleep 1]) script),
           WaitPolling)"
    using wait_loop_no_timeout [of script]
    by (simp add: wait_expanded_def)
  have e: "(\<forall>pc \<in> set pre'. below_threshold (fst pc) \<and>
        \<not> deadline_passed (map_option (\<lambda>t. start + t) timeout) (snd pc)) \<and>
    get_viewport_and_crop d = (Some r', w', h') \<and> 260 \<le> width r' \<and> 260 \<le> height r' \<longrightarrow>
      snd (wait_expanded timeout start (pre' @ (Inr d, clk') # rest')) = WaitReturned r' w' h'"
    using wait_loop_expands [of pre' "map_option (\<lambda>t. start + t) timeout" d r' w' h' clk' rest']
    by (simp add: wait_expanded_def MIN_SIZE_def case_prod_beta)
  show ?thesis
    by (intro conjI) (fact a b c d e)+
qed

theorem expansion_waiter_contract_witness:
  "snd (wait_expanded (Some 10) 0 example_wait_script)
     = WaitReturned \<lparr>left = 100, top_y = 50, width = 400, height = 600\<rparr> 1024 720 \<and>
   snd (wait_expanded (Some 1) 0 example_wait_script) = WaitRaised TimeoutError \<and>
   wait_expanded None 0 [(Inr checkbox_document, 0.5), (Inr checkbox_document, 1.6)]
     = ([Log ''Waiting for captcha to expand'', Probe, Sleep 1, Probe, Sleep 1], WaitPolling)"
  using expansion_waiter_contract [of "Some 10" 0 example_wait_script
      "\<lparr>left = 100, top_y = 50, width = 400, height = 600\<rparr>" 1024 720
      "[(Inr checkbox_document, 0.5)]" "Inr checkbox_document" 1 "1.6"
      "[(Inr example_document, 2.7)]"]
  by (simp add: example_wait_script_def example_document_def checkbox_document_def
      wait_expanded_def wait_more_def deadline_passed_def MIN_SIZE_def
      get_viewport_and_crop_def round_rect_def js_round_def viewportW_def viewportH_def)

section \<open>Input replay: routing\<close>

text \<open>
  Claim C1, as stated for both backends, fails on Playwright: with the crop rectangle
  (20, 10, 500, 500) the click at (100, 50) lies inside it; Selenium dispatches it in the
  nested frame at (80, 40), Playwright on the outer page at (100, 50).
\<close>

theorem routing_both_backends_counterexample:
  "inside 100 50 example_crop \<and>
   replay_click Selenium True 100 50 (Some example_crop)
     = (NestedFrame, [PointerDown 80 40, PointerUp 80 40, ClickEvent 80 40]) \<and>
   replay_click Playwright True 100 50 (Some example_crop)
     = (OuterViewport, [PointerMove 100 50, PointerDown 100 50, PointerUp 100 50])"
  by (simp add: example_crop_def inside_def replay_click_def perform_click_def
      click_in_frame_def playwright_click_def)

text \<open>
  Claim C1, amended. \<open>inside\<close> is membership in the half-open rectangle
  [left, left + width) x [top, top + height). In the Selenium backend a click is routed
  to the nested frame if and only if a crop rectangle is present and the point is inside
  it, and a drag if and only if both its endpoints are; the coordinates dispatched in
  the frame are exactly (x - left, y - top); every other gesture is dispatched on the
  outer page with the original numbers, which Selenium takes as offsets from the
  \<^verbatim>\<open>body\<close> element. The Playwright backend does not consult the crop rectangle: it
  replays every click and every drag on the outer page at the original viewport
  coordinates: a click at its point; a drag by a move to the start point, the press, the
  twelve interpolated moves and the release where the twelfth move went, which is the
  end point when the coordinates are below 2^52 in magnitude.
\<close>

theorem selenium_routing:
  "inside x y c = (left c \<le> x \<and> x < left c + width c \<and> top_y c \<le> y \<and> y < top_y c + height c) \<and>
   (fst (replay_click Selenium h x y crop) = NestedFrame)
     = (\<exists>r. crop = Some r \<and> inside x y r) \<and>
   (crop = Some c \<and> inside x y c \<longrightarrow>
      replay_click Selenium h x y crop
        = (NestedFrame,
           if h then [PointerDown (x - left c) (y - top_y c), PointerUp (x - left c) (y - top_y c),
                        ClickEvent (x - left c) (y - top_y c)]
           else [])) \<and>
   (\<not> (\<exists>r. crop = Some r \<and> inside x y r) \<longrightarrow>
      replay_click Selenium h x y crop
        = (OuterBody, [PointerMove x y, PointerDown x y, PointerUp x y])) \<and>
   (fst (replay_drag Selenium h f t crop) = NestedFrame)
     = (\<exists>r. crop = Some r \<and> inside (fst f) (snd f) r \<and> inside (fst t) (snd t) r) \<and>
   (crop = Some c \<and> inside (fst f) (snd f) c \<and> inside (fst t) (snd t) c \<longrightarrow>
      replay_drag Selenium h f t crop
        = (NestedFrame,
           if h then PointerDown (fst f - left c) (snd f - top_y c)
                  # interpolated_moves interpolate_js (fst f - left c, snd f - top_y c)
                      (fst t - left c, snd t - top_y c)
                  @ [PointerUp (fst t - left c) (snd t - top_y c)]
           else [])) \<and>
   (\<not> (\<exists>r. crop = Some r \<and> inside (fst f) (snd f) r \<and> inside (fst t) (snd t) r) \<longrightarrow>
      replay_drag Selenium h f t crop
        = (OuterBody, PointerMove (fst f) (snd f) # PointerDown (fst f) (snd f)
             # interpolated_moves interpolate_python f t
             @ [PointerMove (fst t) (snd t), PointerUp (fst t) (snd t)])) \<and>
   replay_click Playwright h x y crop
     = (OuterViewport, [PointerMove x y, PointerDown x y, PointerUp x y]) \<and>
   replay_drag Playwright h f t crop
     = (OuterViewport, PointerMove (fst f) (snd f) # PointerDown (fst f) (snd f)
          # interpolated_moves interpolate_python f t
          @ [PointerUp (fst (interpolate_python f t 12)) (snd (interpolate_python f t 12))]) \<and>
   (\<bar>fst f\<bar> < 2 ^ 52 \<and> \<bar>snd f\<bar> < 2 ^ 52 \<and> \<bar>fst t\<bar> < 2 ^ 52 \<and> \<bar>snd t\<bar> < 2 ^ 52 \<longrightarrow>
      interpolate_python f t 12 = t)"
proof -
  have click_in: "crop = Some c \<and> inside x y c \<longrightarrow>
      replay_click Selenium h x y crop
        = (NestedFrame,
           if h then [PointerDown (x - left c) (y - top_y c), PointerUp (x - left c) (y - top_y c),
                        ClickEvent (x - left c) (y - top_y c)]
           else [])"
    by (simp add: replay_click_def perform_click_routed click_in_frame_def)
  have click_out: "\<not> (\<exists>r. crop = Some r \<and> inside x y r) \<longrightarrow>
      replay_click Selenium h x y crop
        = (OuterBody, [PointerMove x y, PointerDown x y, PointerUp x y])"
    using perform_click_outer [of crop x y h]
    by (simp add: replay_click_def click_main_def)
  have click_iff: "(fst (replay_click Selenium h x y crop) = NestedFrame)
     = (\<exists>r. crop = Some r \<and> inside x y r)"
  proof (cases "\<exists>r. crop = Some r \<and> inside x y r")
    case True
    then show ?thesis
      by (auto simp: replay_click_def perform_click_routed click_in_frame_def)
  next
    case False
    with click_out show ?thesis by simp
  qed
  have drag_in: "crop = Some c \<and> inside (fst f) (snd f) c \<and> inside (fst t) (snd t) c \<longrightarrow>
      replay_drag Selenium h f t crop
        = (NestedFrame,
           if h then PointerDown (fst f - left c) (snd f - top_y c)
                  # interpolated_moves interpolate_js (fst f - left c, snd f - top_y c)
                      (fst t - left c, snd t - top_y c)
                  @ [PointerUp (fst t - left c) (snd t - top_y c)]
           else [])"
    by (simp add: replay_drag_def perform_drag_routed drag_in_frame_def)
  have drag_out: "\<not> (\<exists>r. crop = Some r \<and> inside (fst f) (snd f) r \<and> inside (fst t) (snd t) r) \<longrightarrow>
      replay_drag Selenium h f t crop
        = (OuterBody, PointerMove (fst f) (snd f) # PointerDown (fst f) (snd f)
             # interpolated_moves interpolate_python f t
             @ [PointerMove (fst t) (snd t), PointerUp (fst t) (snd t)])"
    using perform_drag_outer [of crop f t h]
    by (simp add: replay_drag_def drag_main_def)
  have drag_iff: "(fst (replay_drag Selenium h f t crop) = NestedFrame)
     = (\<exists>r. crop = Some r \<and> inside (fst f) (snd f) r \<and> inside (fst t) (snd t) r)"
  proof (cases "\<exists>r. crop = Some r \<and> inside (fst f) (snd f) r \<and> inside (fst t) (snd t) r")
    case True
    then show ?thesis
      by (auto simp: replay_drag_def perform_drag_routed drag_in_frame_def)
  next
    case False
    with drag_out show ?thesis by simp
  qed
  have pw_click: "replay_click Playwright h x y crop
     = (OuterViewport, [PointerMove x y, PointerDown x y, PointerUp x y])"
    by (simp add: replay_click_def playwright_click_def)
  have pw_drag: "replay_drag Playwright h f t crop
     = (OuterViewport, PointerMove (fst f) (snd f) # PointerDown (fst f) (snd f)
          # interpolated_moves interpolate_python f t
          @ [PointerUp (fst (interpolate_python f t 12)) (snd (interpolate_python f t 12))])"
    by (simp add: replay_drag_def playwright_drag_events)
  have landing: "\<bar>fst f\<bar> < 2 ^ 52 \<and> \<bar>snd f\<bar> < 2 ^ 52 \<and> \<bar>fst t\<bar> < 2 ^ 52 \<and> \<bar>snd t\<bar> < 2 ^ 52 \<longrightarrow>
      interpolate_python f t 12 = t"
    using interpolate_python_12 [of f t] by blast
  have ins: "inside x y c = (left c \<le> x \<and> x < left c + width c \<and> top_y c \<le> y \<and> y < top_y c + height c)"
    by (simp add: inside_def)
  show ?thesis
    by (intro conjI) (fact ins click_iff click_in click_out drag_iff drag_in drag_out
        pw_click pw_drag landing)+
qed

theorem selenium_routing_witness:
  "replay_click Selenium True 100 50 (Some example_crop)
     = (NestedFrame, [PointerDown 80 40, PointerUp 80 40, ClickEvent 80 40]) \<and>
   replay_click Selenium True 100 50 None
     = (OuterBody, [PointerMove 100 50, PointerDown 100 50, PointerUp 100 50]) \<and>
   replay_click Selenium True 520 50 (Some example_crop)
     = (OuterBody, [PointerMove 520 50, PointerDown 520 50, PointerUp 520 50]) \<and>
   fst (replay_drag Selenium True (30, 40) (100, 20) (Some example_crop)) = NestedFrame \<and>
   fst (replay_drag Selenium True (30, 40) (100, 0) (Some example_crop)) = OuterBody"
proof -
  have a: "Some example_crop = Some example_crop \<and> inside 100 50 example_crop"
    by (simp add: example_crop_def inside_def)
  have b: "\<not> (\<exists>r. None = Some r \<and> inside 100 50 r)" by simp
  have c: "\<not> (\<exists>r. Some example_crop = Some r \<and> inside 520 50 r)"
    by (simp add: example_crop_def inside_def)
  have d: "\<exists>r. Some example_crop = Some r \<and> inside (fst (30, 40)) (snd (30, 40)) r
      \<and> inside (fst (100, 20)) (snd (100, 20)) r"
    by (simp add: example_crop_def inside_def)
  have e: "\<not> (\<exists>r. Some example_crop = Some r \<and> inside (fst (30, 40)) (snd (30, 40)) r
      \<and> inside (fst (100, 0)) (snd (100, 0)) r)"
    by (simp add: example_crop_def inside_def)
  note t = selenium_routing [of 100 50 example_crop True "Some example_crop" "(30, 40)" "(100, 20)"]
  note w1 = t [THEN conjunct2, THEN conjunct2, THEN conjunct1, rule_format, OF a]
  note w2 = selenium_routing [of 100 50 example_crop True None,
      THEN conjunct2, THEN conjunct2, THEN conjunct2, THEN conjunct1, rule_format, OF b]
  note w3 = selenium_routing [of 520 50 example_crop True "Some example_crop",
      THEN conjunct2, THEN conjunct2, THEN conjunct2, THEN conjunct1, rule_format, OF c]
  note w4 = t [THEN conjunct2, THEN conjunct2, THEN conjunct2, THEN conjunct2, THEN conjunct1]
  note w5 = selenium_routing [of 100 50 example_crop True "Some example_crop" "(30, 40)" "(100, 0)",
      THEN conjunct2, THEN conjunct2, THEN conjunct2, THEN conjunct2, THEN conjunct2,
      THEN conjunct2, THEN conjunct1, rule_format, OF e]
  from w1 w2 w3 w4 d w5 show ?thesis
    by (simp add: example_crop_def)
qed

section \<open>Input replay: drags\<close>

text \<open>
  Claim C5, as stated, fails on the outer-page drag of the Selenium backend: the drag
  from (0, 0) to (12, 0) moves the pointer to the start before pressing, and once more to
  the end point before releasing, 14 move events in all. (Playwright issues 13, with the
  move to the start point. The Selenium in-frame script issues no event at all when no
  element lies under the start point.)
\<close>

theorem drag_event_count_counterexample:
  "length (filter is_move (snd (replay_drag Selenium True (0, 0) (12, 0) None))) = 14 \<and>
   take 2 (snd (replay_drag Selenium True (0, 0) (12, 0) None))
     = [PointerMove 0 0, PointerDown 0 0] \<and>
   drop 13 (snd (replay_drag Selenium True (0, 0) (12, 0) None))
     = [PointerMove 12 0, PointerMove 12 0, PointerUp 12 0] \<and>
   length (filter is_move (snd (replay_drag Playwright True (0, 0) (12, 0) None))) = 13 \<and>
   snd (replay_drag Selenium False (30, 40) (100, 20) (Some example_crop)) = []"
proof -
  have l: "last (interpolated_moves interpolate_python (0, 0) (12, 0)) = PointerMove 12 0"
    by (simp add: interpolated_moves_last interpolate_python_12)
  have n: "interpolated_moves interpolate_python (0, 0) (12, 0) \<noteq> []"
    using interpolated_moves_length [of interpolate_python "(0, 0)" "(12, 0)"] by auto
  have d: "drop 11 (interpolated_moves interpolate_python (0, 0) (12, 0)) = [PointerMove 12 0]"
  proof -
    have "drop 11 (interpolated_moves interpolate_python (0, 0) (12, 0))
        = [last (interpolated_moves interpolate_python (0, 0) (12, 0))]"
      by (simp add: interpolated_moves_def upt_1_13)
    with l show ?thesis by simp
  qed
  show ?thesis
    by (simp add: replay_drag_def perform_drag_def drag_main_def playwright_drag_events
        interpolated_moves_all_moves interpolated_moves_length d
        drag_in_frame_def inside_def example_crop_def)
qed

text \<open>
  Claim C5, amended. Every drag has twelve interpolated move events, the i-th at
  parameter i / 12 (i = 1..12), each coordinate computed in double-precision arithmetic
  as the code writes it and made an integer by \<^verbatim>\<open>int\<close> (Python) or \<^verbatim>\<open>Math.round\<close>
  (the in-frame script); the twelfth lands exactly on the end point when the coordinates
  are below 2^52 in magnitude. The Selenium in-frame script, when an element lies under
  the start point, issues exactly: one mousedown at the start, the twelve moves, one
  mouseup at the end (in frame coordinates); when no element lies there it issues
  nothing. Playwright issues a move to the start, the press, the twelve moves, and the
  release where the twelfth move went. The Selenium outer-page path issues a move to the
  start, the press, the twelve moves, one more move to the end point, and the release
  (all as offsets from the \<^verbatim>\<open>body\<close> element).
\<close>

theorem drag_replay_events:
  "length (interpolated_moves interp f t) = 12 \<and>
   (\<forall>i<12. interpolated_moves interp f t ! i
      = PointerMove (fst (interp f t (i + 1))) (snd (interp f t (i + 1)))) \<and>
   interpolate_python f t j
     = (py_int (fl64 (fl64 (real_of_int (fst f))
                    + fl64 (fl64 (real_of_int (fst t - fst f)) * fl64 (real j / 12)))),
        py_int (fl64 (fl64 (real_of_int (snd f))
                    + fl64 (fl64 (real_of_int (snd t - snd f)) * fl64 (real j / 12))))) \<and>
   interpolate_js f t j
     = (js_round (fl64 (fl64 (real_of_int (fst f))
          + fl64 (fl64 (fl64 (real_of_int (fst t)) - fl64 (real_of_int (fst f))) * fl64 (real j / 12)))),
        js_round (fl64 (fl64 (real_of_int (snd f))
          + fl64 (fl64 (fl64 (real_of_int (snd t)) - fl64 (real_of_int (snd f))) * fl64 (real j / 12))))) \<and>
   (\<bar>fst f\<bar> < 2 ^ 52 \<and> \<bar>snd f\<bar> < 2 ^ 52 \<and> \<bar>fst t\<bar> < 2 ^ 52 \<and> \<bar>snd t\<bar> < 2 ^ 52 \<longrightarrow>
      interpolate_python f t 12 = t \<and> interpolate_js f t 12 = t) \<and>
   replay_drag Playwright h f t crop
     = (OuterViewport, PointerMove (fst f) (snd f) # PointerDown (fst f) (snd f)
          # interpolated_moves interpolate_python f t
          @ [PointerUp (fst (interpolate_python f t 12)) (snd (interpolate_python f t 12))]) \<and>
   (\<not> (\<exists>r. crop = Some r \<and> inside (fst f) (snd f) r \<and> inside (fst t) (snd t) r) \<longrightarrow>
      replay_drag Selenium h f t crop
        = (OuterBody, PointerMove (fst f) (snd f) # PointerDown (fst f) (snd f)
             # interpolated_moves interpolate_python f t
             @ [PointerMove (fst t) (snd t), PointerUp (fst t) (snd t)])) \<and>
   (crop = Some c \<and> inside (fst f) (snd f) c \<and> inside (fst t) (snd t) c \<longrightarrow>
      replay_drag Selenium True f t crop
        = (NestedFrame, PointerDown (fst f - left c) (snd f - top_y c)
             # interpolated_moves interpolate_js (fst f - left c, snd f - top_y c)
                 (fst t - left c, snd t - top_y c)
             @ [PointerUp (fst t - left c) (snd t - top_y c)]) \<and>
      replay_drag Selenium False f t crop = (NestedFrame, []))"
proof -
  have nth: "\<forall>i<12. interpolated_moves interp f t ! i
      = PointerMove (fst (interp f t (i + 1))) (snd (interp f t (i + 1)))"
    by (simp add: interpolated_moves_nth)
  have py: "interpolate_python f t j
     = (py_int (fl64 (fl64 (real_of_int (fst f))
                    + fl64 (fl64 (real_of_int (fst t - fst f)) * fl64 (real j / 12)))),
        py_int (fl64 (fl64 (real_of_int (snd f))
                    + fl64 (fl64 (real_of_int (snd t - snd f)) * fl64 (real j / 12)))))"
    by (simp only: interpolate_python_def lerp_python_def)
  have js: "interpolate_js f t j
     = (js_round (fl64 (fl64 (real_of_int (fst f))
          + fl64 (fl64 (fl64 (real_of_int (fst t)) - fl64 (real_of_int (fst f))) * fl64 (real j / 12)))),
        js_round (fl64 (fl64 (real_of_int (snd f))
          + fl64 (fl64 (fl64 (real_of_int (snd t)) - fl64 (real_of_int (snd f))) * fl64 (real j / 12)))))"
    by (simp only: interpolate_js_def lerp_js_def)
  have final: "\<bar>fst f\<bar> < 2 ^ 52 \<and> \<bar>snd f\<bar> < 2 ^ 52 \<and> \<bar>fst t\<bar> < 2 ^ 52 \<and> \<bar>snd t\<bar> < 2 ^ 52 \<longrightarrow>
      interpolate_python f t 12 = t \<and> interpolate_js f t 12 = t"
    using interpolate_python_12 [of f t] interpolate_js_12 [of f t] by blast
  have pw: "replay_drag Playwright h f t crop
     = (OuterViewport, PointerMove (fst f) (snd f) # PointerDown (fst f) (snd f)
          # interpolated_moves interpolate_python f t
          @ [PointerUp (fst (interpolate_python f t 12)) (snd (interpolate_python f t 12))])"
    by (simp add: replay_drag_def playwright_drag_events)
  have outer: "\<not> (\<exists>r. crop = Some r \<and> inside (fst f) (snd f) r \<and> inside (fst t) (snd t) r) \<longrightarrow>
      replay_drag Selenium h f t crop
        = (OuterBody, PointerMove (fst f) (snd f) # PointerDown (fst f) (snd f)
             # interpolated_moves interpolate_python f t
             @ [PointerMove (fst t) (snd t), PointerUp (fst t) (snd t)])"
    using perform_drag_outer [of crop f t h]
    by (simp add: replay_drag_def drag_main_def)
  have frame: "crop = Some c \<and> inside (fst f) (snd f) c \<and> inside (fst t) (snd t) c \<longrightarrow>
      replay_drag Selenium True f t crop
        = (NestedFrame, PointerDown (fst f - left c) (snd f - top_y c)
             # interpolated_moves interpolate_js (fst f - left c, snd f - top_y c)
                 (fst t - left c, snd t - top_y c)
             @ [PointerUp (fst t - left c) (snd t - top_y c)]) \<and>
      replay_drag Selenium False f t crop = (NestedFrame, [])"
    by (simp add: replay_drag_def perform_drag_routed drag_in_frame_def)
  show ?thesis
    by (intro conjI) (fact interpolated_moves_length nth py js final pw outer frame)+
qed

text \<open>
  The drag from x = 108 to x = 0: the seventh move goes to 44, not to the 45 that exact
  arithmetic gives, since 7 / 12 is rounded up as a double; in the frame, from 54 to 0,
  the seventh move goes to 22.
\<close>

theorem drag_replay_events_witness:
  "interpolated_moves interpolate_python (108, 0) (0, 0) ! 6 = PointerMove 44 0 \<and>
   interpolated_moves interpolate_js (54, 0) (0, 0) ! 6 = PointerMove 22 0 \<and>
   interpolated_moves interpolate_python (108, 0) (0, 0) ! 11 = PointerMove 0 0 \<and>
   replay_drag Selenium True (108, 0) (0, 0) None
     = (OuterBody, PointerMove 108 0 # PointerDown 108 0
          # interpolated_moves interpolate_python (108, 0) (0, 0)
          @ [PointerMove 0 0, PointerUp 0 0])"
proof -
  have v: "lerp_python 108 0 7 = 44" "lerp_js 54 0 7 = 22" "lerp_python 0 0 7 = 0"
    "lerp_js 0 0 7 = 0"
    by code_simp+
  have r: "\<bar>fst (108::int, 0::int)\<bar> < 2 ^ 52 \<and> \<bar>snd (108::int, 0::int)\<bar> < 2 ^ 52 \<and>
      \<bar>fst (0::int, 0::int)\<bar> < 2 ^ 52 \<and> \<bar>snd (0::int, 0::int)\<bar> < 2 ^ 52"
    by simp
  note nth = drag_replay_events [THEN conjunct2, THEN conjunct1, rule_format]
  note landing = drag_replay_events [of _ "(108, 0)" "(0, 0)", THEN conjunct2, THEN conjunct2,
      THEN conjunct2, THEN conjunct2, THEN conjunct1, rule_format, OF r, THEN conjunct1]
  have a: "interpolated_moves interpolate_python (108, 0) (0, 0) ! 6 = PointerMove 44 0"
    using nth [of 6 interpolate_python "(108, 0)" "(0, 0)"]
    by (simp add: interpolate_python_def v)
  have b: "interpolated_moves interpolate_js (54, 0) (0, 0) ! 6 = PointerMove 22 0"
    using nth [of 6 interpolate_js "(54, 0)" "(0, 0)"]
    by (simp add: interpolate_js_def v)
  have c: "interpolated_moves interpolate_python (108, 0) (0, 0) ! 11 = PointerMove 0 0"
    using nth [of 11 interpolate_python "(108, 0)" "(0, 0)"] landing
    by simp
  have e: "\<not> (\<exists>r. None = Some r \<and> inside (fst (108, 0)) (snd (108, 0)) r
      \<and> inside (fst (0, 0)) (snd (0, 0)) r)"
    by simp
  note d = drag_replay_events [of _ "(108, 0)" "(0, 0)" _ True None, THEN conjunct2, THEN conjunct2,
      THEN conjunct2, THEN conjunct2, THEN conjunct2, THEN conjunct2, THEN conjunct1,
      rule_format, OF e]
  from a b c d show ?thesis by simp
qed

section \<open>The steady-state loop\<close>

lemma shot_times_append: "shot_times (xs @ ys) = shot_times xs @ shot_times ys"
  by (induction xs rule: shot_times.induct) simp_all

lemma then_do_cases [consumes 1, case_names stop go]:
  assumes "then_do r k = (evs, fl)"
  obtains "r = (evs, fl)" "\<forall>l. fl \<noteq> Next l"
  | l evs1 evs2 where "r = (evs1, Next l)" "k l = (evs2, fl)" "evs = evs1 @ evs2"
proof (cases r)
  case (Pair evs1 fl1)
  show ?thesis
  proof (cases fl1)
    case (Next l)
    obtain evs2 fl2 where k: "k l = (evs2, fl2)" by (cases "k l")
    with assms Pair Next have "evs = evs1 @ evs2" "fl2 = fl"
      by (simp_all add: then_do_def)
    with Pair Next k that(2) show ?thesis by blast
  next
    case Return
    with assms Pair that(1) show ?thesis by (auto simp: then_do_def)
  next
    case (Raised e)
    with assms Pair that(1) show ?thesis by (auto simp: then_do_def)
  qed
qed

text \<open>What each stage of a pass contributes to the trace, and how it can end.\<close>

lemma action_stage_facts:
  "action_stage b crop it act l = (evs, fl) \<Longrightarrow>
     shot_times evs = [] \<and> filter is_notify evs = [] \<and> (fl = Next l \<or> (\<exists>e. fl = Raised e)) \<and>
     (\<forall>g. Replay g \<in> set evs \<longrightarrow>
        (\<exists>a msg. act = Some a \<and> gesture_of b (hit it) crop a = Some (msg, g)))"
  by (auto simp: action_stage_def split: option.splits prod.splits)

lemma token_stage_facts:
  "token_stage b tid it l = (evs, fl) \<Longrightarrow>
     shot_times evs = [] \<and> (\<forall>g. Replay g \<notin> set evs) \<and> (\<forall>l'. fl = Next l' \<longrightarrow> l' = l) \<and>
     ((filter is_notify evs = [] \<and> fl \<noteq> Return) \<or>
      (\<exists>k. filter is_notify evs = [NotifySolved tid k] \<and> k \<noteq> [] \<and>
           get_token b (token_field it) = Inr (Some k) \<and>
           (case notify_exn it of None \<Rightarrow> fl = Return | Some e \<Rightarrow> fl = Raised e)))"
proof -
  assume a: "token_stage b tid it l = (evs, fl)"
  have ne: "k \<noteq> []" if "get_token b (token_field it) = Inr (Some k)" for k
    using that by (auto simp: get_token_def split: sum.splits option.splits if_splits backend.splits)
  show ?thesis
  proof (cases "get_token b (token_field it)")
    case (Inl e)
    with a show ?thesis by (auto simp: token_stage_def)
  next
    case (Inr tok)
    show ?thesis
    proof (cases tok)
      case None
      with a Inr show ?thesis by (auto simp: token_stage_def)
    next
      case (Some k)
      with Inr ne have "k \<noteq> []" by simp
      with a Inr Some show ?thesis
        by (cases "notify_exn it") (auto simp: token_stage_def)
    qed
  qed
qed

lemma screenshot_stage_facts:
  "screenshot_stage tid it l = (evs, fl) \<Longrightarrow>
     filter is_notify evs = [] \<and> (\<forall>g. Replay g \<notin> set evs) \<and> fl \<noteq> Return \<and>
     (\<forall>e. fl = Raised e \<longrightarrow> e = KeyboardInterrupt) \<and>
     ((shot_times evs = [] \<and> (\<forall>l'. fl = Next l' \<longrightarrow> l' = l)) \<or>
      (shot_times evs = [now it] \<and> SCREENSHOT_INTERVAL_S \<le> now it - l \<and> fl = Next (now it)))"
  by (auto simp: screenshot_stage_def shot_failed_def
      split: sum.splits option.splits if_splits prod.splits)

lemma sleep_stage_facts:
  "sleep_stage it l = (evs, fl) \<Longrightarrow>
     shot_times evs = [] \<and> filter is_notify evs = [] \<and> (\<forall>g. Replay g \<notin> set evs) \<and>
     (fl = Next l \<or> fl = Raised KeyboardInterrupt)"
  by (auto simp: sleep_stage_def split: if_splits)


lemma body_facts:
  assumes body: "iteration_body b tid crop l it = (evs, fl)"
  shows "((shot_times evs = [] \<and> (\<forall>l'. fl = Next l' \<longrightarrow> l' = l)) \<or>
          (shot_times evs = [now it] \<and> SCREENSHOT_INTERVAL_S \<le> now it - l \<and>
             (\<forall>l'. fl = Next l' \<longrightarrow> l' = now it) \<and>
             (\<forall>e. fl = Raised e \<longrightarrow> e = KeyboardInterrupt))) \<and>
         (filter is_notify evs = [] \<or>
          (\<exists>k. filter is_notify evs = [NotifySolved tid k] \<and> k \<noteq> [] \<and>
               get_token b (token_field it) = Inr (Some k) \<and>
               (case notify_exn it of None \<Rightarrow> fl = Return | Some e \<Rightarrow> fl = Raised e))) \<and>
         (\<forall>g. Replay g \<in> set evs \<longrightarrow>
            (\<exists>resp a msg. next_action it = Inr resp \<and> action resp = Some a \<and>
               gesture_of b (hit it) crop a = Some (msg, g)))"
    (is "?S evs fl \<and> ?N evs fl \<and> ?R evs")
proof (cases "next_action it")
  case (Inl e)
  with body show ?thesis by (auto simp: iteration_body_def)
next
  case (Inr resp)
  show ?thesis
  proof (cases "status resp = ''expired'' \<or> status resp = ''solved''")
    case True
    with body Inr show ?thesis by (auto simp: iteration_body_def)
  next
    case False
    with body Inr have seq: "then_do ([GetNextAction tid], Next l) (\<lambda>l.
            then_do (action_stage b crop it (action resp) l) (\<lambda>l.
            then_do (token_stage b tid it l) (\<lambda>l.
            then_do (screenshot_stage tid it l) (\<lambda>l.
            sleep_stage it l)))) = (evs, fl)"
      by (simp add: iteration_body_def)
    from seq obtain evsA where
      evs: "evs = GetNextAction tid # evsA" and
      seqA: "then_do (action_stage b crop it (action resp) l) (\<lambda>l.
            then_do (token_stage b tid it l) (\<lambda>l.
            then_do (screenshot_stage tid it l) (\<lambda>l.
            sleep_stage it l))) = (evsA, fl)"
      by (cases rule: then_do_cases) auto
    from seqA show ?thesis
    proof (cases rule: then_do_cases)
      case stop
      from action_stage_facts [OF stop(1)] stop(2) Inr show ?thesis
        by (auto simp: evs)
    next
      case (go lA evs1 evsT)
      note A = action_stage_facts [OF go(1)]
      then have lA: "lA = l" by auto
      from go(2) show ?thesis
      proof (cases rule: then_do_cases)
        case stop
        from A token_stage_facts [OF stop(1)] stop(2) Inr show ?thesis
          by (auto simp: evs go(3) shot_times_append)
      next
        case (go lT evs2 evsS)
        note T = token_stage_facts [OF go(1)]
        then have lT: "lT = lA" by auto
        from T have Tn: "filter is_notify evs2 = []" by (auto split: option.splits)
        from go(2) show ?thesis
        proof (cases rule: then_do_cases)
          case stop
          from A T Tn screenshot_stage_facts [OF stop(1)] stop(2) Inr show ?thesis
            by (auto simp: evs \<open>evsA = evs1 @ evsT\<close> \<open>evsT = evs2 @ evsS\<close> shot_times_append lA lT)
        next
          case (go lS evs3 evsP)
          note S = screenshot_stage_facts [OF go(1)]
          note P = sleep_stage_facts [OF go(2)]
          have all: "evs = GetNextAction tid # evs1 @ evs2 @ evs3 @ evsP"
            by (simp add: evs \<open>evsA = evs1 @ evsT\<close> \<open>evsT = evs2 @ evsS\<close> go(3))
          from A T Tn S P have n: "filter is_notify evs = []"
            by (simp add: all)
          from A T S P Inr have r: "?R evs"
            by (auto simp: all)
          from A T S P have s: "?S evs fl"
            by (auto simp: all shot_times_append lA lT)
          from n r s show ?thesis by blast
        qed
      qed
    qed
  qed
qed

lemma run_loop_Cons_cases:
  assumes "iteration_body b tid crop l it = (evs, fl)"
  shows "run_loop b tid crop l (it # its) =
     (case fl of
        Return \<Rightarrow> (evs, Returned)
      | Next l' \<Rightarrow> (evs @ fst (run_loop b tid crop l' its), snd (run_loop b tid crop l' its))
      | Raised e \<Rightarrow>
          if e = KeyboardInterrupt then (evs @ [Log ''Interrupted by user''], Returned)
          else if backoff_interrupted it then (evs @ [Log ''Loop error''], Escaped KeyboardInterrupt)
          else (evs @ [Log ''Loop error'', Sleep 1] @ fst (run_loop b tid crop l its),
                snd (run_loop b tid crop l its)))"
  using assms by (simp add: prepend_def split: flow.splits)

lemma run_loop_spaced: "spaced l (shot_times (fst (run_loop b tid crop l script)))"
proof (induction script arbitrary: l)
  case Nil
  then show ?case by simp
next
  case (Cons it its)
  obtain evs fl where body: "iteration_body b tid crop l it = (evs, fl)"
    by (cases "iteration_body b tid crop l it")
  from body_facts [OF body]
  have shot: "(shot_times evs = [] \<and> (\<forall>l'. fl = Next l' \<longrightarrow> l' = l)) \<or>
          (shot_times evs = [now it] \<and> SCREENSHOT_INTERVAL_S \<le> now it - l \<and>
             (\<forall>l'. fl = Next l' \<longrightarrow> l' = now it) \<and>
             (\<forall>e. fl = Raised e \<longrightarrow> e = KeyboardInterrupt))"
    by blast
  show ?case
  proof (cases fl)
    case (Next l')
    with shot Cons.IH [of l'] show ?thesis
      by (auto simp: run_loop_Cons_cases [OF body] shot_times_append simp del: run_loop.simps)
  next
    case Return
    with shot show ?thesis
      by (auto simp: run_loop_Cons_cases [OF body] simp del: run_loop.simps)
  next
    case (Raised e)
    with shot Cons.IH [of l] show ?thesis
      by (auto simp: run_loop_Cons_cases [OF body] shot_times_append simp del: run_loop.simps)
  qed
qed

lemma run_loop_events_cases:
  assumes "iteration_body b tid crop l it = (evs, fl)"
    and "x \<in> set (fst (run_loop b tid crop l (it # its)))"
  shows "x \<in> set evs \<or> x = Log ''Interrupted by user'' \<or> x = Log ''Loop error'' \<or> x = Sleep 1
     \<or> (\<exists>l'. x \<in> set (fst (run_loop b tid crop l' its)))"
  using assms(2) unfolding run_loop_Cons_cases [OF assms(1)]
  by (cases fl) (auto split: if_splits)

lemma run_loop_notify_args:
  "NotifySolved t k \<in> set (fst (run_loop b tid crop l script)) \<Longrightarrow>
     t = tid \<and> k \<noteq> [] \<and> (\<exists>it \<in> set script. get_token b (token_field it) = Inr (Some k))"
proof (induction script arbitrary: l)
  case Nil
  then show ?case by simp
next
  case (Cons it its)
  obtain evs fl where body: "iteration_body b tid crop l it = (evs, fl)"
    by (cases "iteration_body b tid crop l it")
  from body_facts [OF body]
  have notify: "filter is_notify evs = [] \<or>
          (\<exists>k. filter is_notify evs = [NotifySolved tid k] \<and> k \<noteq> [] \<and>
               get_token b (token_field it) = Inr (Some k) \<and>
               (case notify_exn it of None \<Rightarrow> fl = Return | Some e \<Rightarrow> fl = Raised e))"
    by blast
  have here: "t = tid \<and> k \<noteq> [] \<and> get_token b (token_field it) = Inr (Some k)"
    if "NotifySolved t k \<in> set evs"
  proof -
    from that have mem: "NotifySolved t k \<in> set (filter is_notify evs)" by simp
    from notify show ?thesis
    proof
      assume "filter is_notify evs = []"
      with mem show ?thesis by (simp del: set_filter)
    next
      assume "\<exists>k. filter is_notify evs = [NotifySolved tid k] \<and> k \<noteq> [] \<and>
           get_token b (token_field it) = Inr (Some k) \<and>
           (case notify_exn it of None \<Rightarrow> fl = Return | Some e \<Rightarrow> fl = Raised e)"
      then obtain k' where k': "filter is_notify evs = [NotifySolved tid k']" "k' \<noteq> []"
        "get_token b (token_field it) = Inr (Some k')" by blast
      from mem k'(1) have "t = tid \<and> k = k'" by (simp del: set_filter)
      with k' show ?thesis by simp
    qed
  qed
  from run_loop_events_cases [OF body Cons.prems]
  have "NotifySolved t k \<in> set evs \<or>
      (\<exists>l'. NotifySolved t k \<in> set (fst (run_loop b tid crop l' its)))"
    by simp
  with here Cons.IH show ?case by auto
qed

lemma run_loop_notify_once:
  "\<forall>it \<in> set script. notify_exn it = None \<Longrightarrow>
   length (filter is_notify (fst (run_loop b tid crop l script))) \<le> 1"
proof (induction script arbitrary: l)
  case Nil
  then show ?case by simp
next
  case (Cons it its)
  obtain evs fl where body: "iteration_body b tid crop l it = (evs, fl)"
    by (cases "iteration_body b tid crop l it")
  from Cons.prems have ok: "notify_exn it = None" by simp
  from Cons have IH: "length (filter is_notify (fst (run_loop b tid crop l' its))) \<le> 1" for l'
    by simp
  from body_facts [OF body]
  have "filter is_notify evs = [] \<or>
          (\<exists>k. filter is_notify evs = [NotifySolved tid k] \<and> k \<noteq> [] \<and>
               get_token b (token_field it) = Inr (Some k) \<and>
               (case notify_exn it of None \<Rightarrow> fl = Return | Some e \<Rightarrow> fl = Raised e))"
    by blast
  with ok have d: "filter is_notify evs = [] \<or> (length (filter is_notify evs) = 1 \<and> fl = Return)"
    by auto
  show ?case
  proof (cases fl)
    case (Next l')
    with d IH [of l'] show ?thesis
      by (auto simp: run_loop_Cons_cases [OF body] simp del: run_loop.simps)
  next
    case Return
    with d show ?thesis
      by (auto simp: run_loop_Cons_cases [OF body] simp del: run_loop.simps)
  next
    case (Raised e)
    with d IH [of l] show ?thesis
      by (auto simp: run_loop_Cons_cases [OF body] simp del: run_loop.simps)
  qed
qed

lemma run_loop_replay:
  "Replay g \<in> set (fst (run_loop b tid crop l script)) \<Longrightarrow>
     \<exists>it \<in> set script. \<exists>resp a msg. next_action it = Inr resp \<and> action resp = Some a \<and>
        gesture_of b (hit it) crop a = Some (msg, g)"
proof (induction script arbitrary: l)
  case Nil
  then show ?case by simp
next
  case (Cons it its)
  obtain evs fl where body: "iteration_body b tid crop l it = (evs, fl)"
    by (cases "iteration_body b tid crop l it")
  from body_facts [OF body]
  have replay: "Replay g \<in> set evs \<Longrightarrow>
            (\<exists>resp a msg. next_action it = Inr resp \<and> action resp = Some a \<and>
               gesture_of b (hit it) crop a = Some (msg, g))"
    by blast
  from run_loop_events_cases [OF body Cons.prems]
  have "Replay g \<in> set evs \<or> (\<exists>l'. Replay g \<in> set (fst (run_loop b tid crop l' its)))"
    by simp
  then show ?case
  proof
    assume "Replay g \<in> set evs"
    from replay [OF this] show ?thesis by simp
  next
    assume "\<exists>l'. Replay g \<in> set (fst (run_loop b tid crop l' its))"
    then obtain l' where "Replay g \<in> set (fst (run_loop b tid crop l' its))" ..
    from Cons.IH [OF this] show ?thesis by simp
  qed
qed

lemma run_loop_escaped:
  "snd (run_loop b tid crop l script) = Escaped e \<Longrightarrow> e = KeyboardInterrupt"
proof (induction script arbitrary: l)
  case Nil
  then show ?case by simp
next
  case (Cons it its)
  obtain evs fl where body: "iteration_body b tid crop l it = (evs, fl)"
    by (cases "iteration_body b tid crop l it")
  from Cons.prems have "e = KeyboardInterrupt \<or>
      (\<exists>l'. snd (run_loop b tid crop l' its) = Escaped e)"
    unfolding run_loop_Cons_cases [OF body]
    by (cases fl) (auto split: if_splits)
  with Cons.IH show ?case by auto
qed

lemma token_stage_return:
  "token_stage b tid it l = (evs, Return) \<Longrightarrow>
     evs \<noteq> [] \<and> last evs = Log ''Token submitted successfully''"
  by (auto simp: token_stage_def split: sum.splits option.splits)

lemma body_return:
  assumes body: "iteration_body b tid crop l it = (evs, Return)"
  shows "evs \<noteq> [] \<and>
     (last evs = Log ''Session ended: solved'' \<or> last evs = Log ''Session ended: expired'' \<or>
      last evs = Log ''Token submitted successfully'')"
proof (cases "next_action it")
  case (Inl e)
  with body show ?thesis by (simp add: iteration_body_def)
next
  case (Inr resp)
  show ?thesis
  proof (cases "status resp = ''expired'' \<or> status resp = ''solved''")
    case True
    with body Inr show ?thesis by (auto simp: iteration_body_def)
  next
    case False
    with body Inr have seq: "then_do ([GetNextAction tid], Next l) (\<lambda>l.
            then_do (action_stage b crop it (action resp) l) (\<lambda>l.
            then_do (token_stage b tid it l) (\<lambda>l.
            then_do (screenshot_stage tid it l) (\<lambda>l.
            sleep_stage it l)))) = (evs, Return)"
      by (simp add: iteration_body_def)
    from seq obtain evsA where
      evs: "evs = GetNextAction tid # evsA" and
      seqA: "then_do (action_stage b crop it (action resp) l) (\<lambda>l.
            then_do (token_stage b tid it l) (\<lambda>l.
            then_do (screenshot_stage tid it l) (\<lambda>l.
            sleep_stage it l))) = (evsA, Return)"
      by (cases rule: then_do_cases) auto
    from seqA show ?thesis
    proof (cases rule: then_do_cases)
      case stop
      from action_stage_facts [OF stop(1)] show ?thesis by simp
    next
      case (go lA evs1 evsT)
      from go(2) show ?thesis
      proof (cases rule: then_do_cases)
        case stop
        from token_stage_return [OF stop(1)] show ?thesis
          by (simp add: evs go(3))
      next
        case (go lT evs2 evsS)
        from go(2) show ?thesis
        proof (cases rule: then_do_cases)
          case stop
          from screenshot_stage_facts [OF stop(1)] show ?thesis by simp
        next
          case (go lS evs3 evsP)
          from sleep_stage_facts [OF go(2)] show ?thesis by simp
        qed
      qed
    qed
  qed
qed

lemma run_loop_returned:
  "snd (run_loop b tid crop l script) = Returned \<Longrightarrow>
     fst (run_loop b tid crop l script) \<noteq> [] \<and>
     (last (fst (run_loop b tid crop l script)) = Log ''Session ended: solved'' \<or>
      last (fst (run_loop b tid crop l script)) = Log ''Session ended: expired'' \<or>
      last (fst (run_loop b tid crop l script)) = Log ''Token submitted successfully'' \<or>
      last (fst (run_loop b tid crop l script)) = Log ''Interrupted by user'')"
proof (induction script arbitrary: l)
  case Nil
  then show ?case by simp
next
  case (Cons it its)
  obtain evs fl where body: "iteration_body b tid crop l it = (evs, fl)"
    by (cases "iteration_body b tid crop l it")
  show ?case
  proof (cases fl)
    case (Next l')
    with Cons.prems have "snd (run_loop b tid crop l' its) = Returned"
      by (simp add: run_loop_Cons_cases [OF body] del: run_loop.simps)
    from Cons.IH [OF this] Next show ?thesis
      by (simp add: run_loop_Cons_cases [OF body] del: run_loop.simps)
  next
    case Return
    with body_return [of b tid crop l it evs] body
    have "evs \<noteq> []" and "last evs = Log ''Session ended: solved'' \<or>
        last evs = Log ''Session ended: expired'' \<or>
        last evs = Log ''Token submitted successfully''"
      by simp_all
    with Return show ?thesis
      unfolding run_loop_Cons_cases [OF body] by auto
  next
    case (Raised e)
    show ?thesis
    proof (cases "e = KeyboardInterrupt")
      case True
      with Raised show ?thesis
        by (simp add: run_loop_Cons_cases [OF body] del: run_loop.simps)
    next
      case False
      with Raised Cons.prems have nb: "\<not> backoff_interrupted it"
        and "snd (run_loop b tid crop l its) = Returned"
        by (auto simp: run_loop_Cons_cases [OF body] simp del: run_loop.simps split: if_splits)
      from Cons.IH [OF this(2)] Raised False nb show ?thesis
        by (simp add: run_loop_Cons_cases [OF body] del: run_loop.simps)
    qed
  qed
qed

text \<open>Unfolding a run on a concrete script.\<close>

lemmas run_defs = quiet_iteration_def iteration_body_def then_do_def action_stage_def
  token_stage_def screenshot_stage_def sleep_stage_def shot_failed_def prepend_def
  get_token_def gesture_of_def SCREENSHOT_INTERVAL_S_def POLL_S_def
  example_document_def moved_document_def get_viewport_and_crop_def
  round_rect_def js_round_def viewportW_def viewportH_def

text \<open>A pass as the sequence of its stages.\<close>

lemma body_structure:
  assumes "next_action it = Inr resp" and "\<not> (status resp = ''expired'' \<or> status resp = ''solved'')"
  shows "iteration_body b tid crop l it =
     (case action_stage b crop it (action resp) l of
        (evsA, Next la) \<Rightarrow>
          (case token_stage b tid it l of
             (evsT, Next lt) \<Rightarrow>
               (case screenshot_stage tid it l of
                  (evsS, Next l') \<Rightarrow>
                    (GetNextAction tid # evsA @ evsT @ evsS @ fst (sleep_stage it l'),
                     snd (sleep_stage it l'))
                | (evsS, Return) \<Rightarrow> (GetNextAction tid # evsA @ evsT @ evsS, Return)
                | (evsS, Raised e) \<Rightarrow> (GetNextAction tid # evsA @ evsT @ evsS, Raised e))
           | (evsT, Return) \<Rightarrow> (GetNextAction tid # evsA @ evsT, Return)
           | (evsT, Raised e) \<Rightarrow> (GetNextAction tid # evsA @ evsT, Raised e))
      | (evsA, Return) \<Rightarrow> (GetNextAction tid # evsA, Return)
      | (evsA, Raised e) \<Rightarrow> (GetNextAction tid # evsA, Raised e))"
proof -
  obtain evsA fA where A: "action_stage b crop it (action resp) l = (evsA, fA)"
    by (cases "action_stage b crop it (action resp) l")
  obtain evsT fT where T: "token_stage b tid it l = (evsT, fT)"
    by (cases "token_stage b tid it l")
  obtain evsS fS where S: "screenshot_stage tid it l = (evsS, fS)"
    by (cases "screenshot_stage tid it l")
  from action_stage_facts [OF A] have la: "fA = Next la \<Longrightarrow> la = l" for la by auto
  from token_stage_facts [OF T] have lt: "fT = Next lt \<Longrightarrow> lt = l" for lt by auto
  show ?thesis
  proof (cases fA)
    case (Next la')
    with la have fA: "fA = Next l" by simp
    show ?thesis
    proof (cases fT)
      case (Next lt')
      with lt have fT: "fT = Next l" by simp
      show ?thesis
        using assms
        by (cases fS) (simp_all add: iteration_body_def then_do_def A T S fA fT case_prod_beta)
    next
      case Return
      with assms show ?thesis
        by (simp add: iteration_body_def then_do_def A T fA)
    next
      case (Raised e)
      with assms show ?thesis
        by (simp add: iteration_body_def then_do_def A T fA)
    qed
  next
    case Return
    with assms show ?thesis
      by (simp add: iteration_body_def then_do_def A)
  next
    case (Raised e)
    with assms show ?thesis
      by (simp add: iteration_body_def then_do_def A)
  qed
qed

lemma action_stage_no_probe:
  "Probe \<notin> set (fst (action_stage b crop it act l)) \<and>
   (\<forall>t s w h r. UpdateScreenshot t s w h r \<notin> set (fst (action_stage b crop it act l)))"
  by (auto simp: action_stage_def split: option.splits prod.splits)

lemma token_stage_no_probe:
  "Probe \<notin> set (fst (token_stage b tid it l)) \<and>
   (\<forall>t s w h r. UpdateScreenshot t s w h r \<notin> set (fst (token_stage b tid it l)))"
  by (auto simp: token_stage_def split: sum.splits option.splits)

lemma sleep_stage_no_probe:
  "Probe \<notin> set (fst (sleep_stage it l)) \<and>
   (\<forall>t s w h r. UpdateScreenshot t s w h r \<notin> set (fst (sleep_stage it l)))"
  by (auto simp: sleep_stage_def)

lemma screenshot_stage_probe:
  "(Probe \<in> set (fst (screenshot_stage tid it l)) \<longrightarrow> SCREENSHOT_INTERVAL_S \<le> now it - l) \<and>
   (UpdateScreenshot t s w h r \<in> set (fst (screenshot_stage tid it l)) \<longrightarrow>
      t = tid \<and> (\<exists>d. probe it = Inr d \<and> get_viewport_and_crop d = (r, w, h)) \<and>
      Probe \<in> set (fst (screenshot_stage tid it l)))"
  by (auto simp: screenshot_stage_def shot_failed_def
      split: if_splits sum.splits option.splits prod.splits)

lemma body_events_cases:
  assumes "x \<in> set (fst (iteration_body b tid crop l it))"
  shows "x = GetNextAction tid \<or> (\<exists>s. x = Log s) \<or>
     (\<exists>resp. next_action it = Inr resp \<and> x \<in> set (fst (action_stage b crop it (action resp) l))) \<or>
     x \<in> set (fst (token_stage b tid it l)) \<or>
     x \<in> set (fst (screenshot_stage tid it l)) \<or>
     (\<exists>l'. x \<in> set (fst (sleep_stage it l')))"
proof (cases "next_action it")
  case (Inl e)
  with assms show ?thesis by (simp add: iteration_body_def)
next
  case (Inr resp)
  show ?thesis
  proof (cases "status resp = ''expired'' \<or> status resp = ''solved''")
    case True
    with assms Inr show ?thesis by (auto simp: iteration_body_def)
  next
    case False
    obtain evsA fA where A: "action_stage b crop it (action resp) l = (evsA, fA)"
      by (cases "action_stage b crop it (action resp) l")
    obtain evsT fT where T: "token_stage b tid it l = (evsT, fT)"
      by (cases "token_stage b tid it l")
    obtain evsS fS where S: "screenshot_stage tid it l = (evsS, fS)"
      by (cases "screenshot_stage tid it l")
    from assms have "x = GetNextAction tid \<or> x \<in> set evsA \<or> x \<in> set evsT \<or> x \<in> set evsS
        \<or> (\<exists>l'. x \<in> set (fst (sleep_stage it l')))"
      unfolding body_structure [OF Inr False] A T S
      by (cases fA; cases fT; cases fS) auto
    with Inr A T S show ?thesis by auto
  qed
qed

lemma body_probe:
  "(Probe \<in> set (fst (iteration_body b tid crop l it)) \<longrightarrow> SCREENSHOT_INTERVAL_S \<le> now it - l) \<and>
   (UpdateScreenshot t s w h r \<in> set (fst (iteration_body b tid crop l it)) \<longrightarrow>
      t = tid \<and> (\<exists>d. probe it = Inr d \<and> get_viewport_and_crop d = (r, w, h)))"
  using body_events_cases [of Probe b tid crop l it]
    body_events_cases [of "UpdateScreenshot t s w h r" b tid crop l it]
    action_stage_no_probe [of b crop it _ l] token_stage_no_probe [of b tid it l]
    sleep_stage_no_probe [of it] screenshot_stage_probe [of tid it l t s w h r]
  by auto

lemma body_prefix:
  assumes "next_action it = Inr resp" and "\<not> (status resp = ''expired'' \<or> status resp = ''solved'')"
  shows "\<exists>rest. fst (iteration_body b tid crop l it)
      = GetNextAction tid # fst (action_stage b crop it (action resp) l) @ rest"
proof -
  obtain evsA fA where A: "action_stage b crop it (action resp) l = (evsA, fA)"
    by (cases "action_stage b crop it (action resp) l")
  obtain evsT fT where T: "token_stage b tid it l = (evsT, fT)"
    by (cases "token_stage b tid it l")
  obtain evsS fS where S: "screenshot_stage tid it l = (evsS, fS)"
    by (cases "screenshot_stage tid it l")
  show ?thesis
    unfolding body_structure [OF assms] A T S
    by (cases fA; cases fT; cases fS) auto
qed

lemma body_notify_raises:
  assumes "next_action it = Inr resp" and "\<not> (status resp = ''expired'' \<or> status resp = ''solved'')"
    and "action_stage b crop it (action resp) l = (evsA, Next l)"
    and "get_token b (token_field it) = Inr (Some k)"
  shows "iteration_body b tid crop l it =
     (case notify_exn it of
        Some e \<Rightarrow> (GetNextAction tid # evsA
                    @ [Log ''Captcha solved, submitting token...'', NotifySolved tid k], Raised e)
      | None \<Rightarrow> (GetNextAction tid # evsA
                  @ [Log ''Captcha solved, submitting token...'', NotifySolved tid k,
                     Log ''Token submitted successfully''], Return))"
  unfolding body_structure [OF assms(1,2)] assms(3)
  by (simp add: token_stage_def assms(4) split: option.splits)

text \<open>Where an exception can leave a stage, and a pass.\<close>

lemma action_stage_raised_iff:
  "(snd (action_stage b crop it act l) = Raised e)
     = (\<exists>a msg g. act = Some a \<and> gesture_of b (hit it) crop a = Some (msg, g) \<and>
          replay_exn it = Some e)"
  by (auto simp: action_stage_def split: option.splits prod.splits)

lemma token_stage_raised_iff:
  "(snd (token_stage b tid it l) = Raised e)
     = (get_token b (token_field it) = Inl e \<or>
        (\<exists>k. get_token b (token_field it) = Inr (Some k) \<and> notify_exn it = Some e))"
  by (auto simp: token_stage_def split: sum.splits option.splits)

lemma screenshot_stage_raised_iff:
  "(snd (screenshot_stage tid it l) = Raised e)
     = (e = KeyboardInterrupt \<and> SCREENSHOT_INTERVAL_S \<le> now it - l \<and>
        (probe it = Inl e \<or>
         (\<exists>d. probe it = Inr d \<and>
            (capture it = Inl e \<or> (\<exists>s. capture it = Inr s \<and> upload_exn it = Some e)))))"
  by (auto simp: screenshot_stage_def shot_failed_def
      split: sum.splits option.splits prod.splits if_splits)

lemma sleep_stage_raised_iff:
  "(snd (sleep_stage it l) = Raised e) = (e = KeyboardInterrupt \<and> poll_sleep_interrupted it)"
  by (auto simp: sleep_stage_def)

lemma body_raised_iff:
  assumes "next_action it = Inr resp" and "\<not> (status resp = ''expired'' \<or> status resp = ''solved'')"
  shows "(snd (iteration_body b tid crop l it) = Raised e)
     = (snd (action_stage b crop it (action resp) l) = Raised e \<or>
        snd (action_stage b crop it (action resp) l) = Next l \<and>
        (snd (token_stage b tid it l) = Raised e \<or>
         snd (token_stage b tid it l) = Next l \<and>
         (snd (screenshot_stage tid it l) = Raised e \<or>
          (\<exists>l'. snd (screenshot_stage tid it l) = Next l' \<and>
             snd (sleep_stage it l') = Raised e))))"
proof -
  obtain evsA fA where A: "action_stage b crop it (action resp) l = (evsA, fA)"
    by (cases "action_stage b crop it (action resp) l")
  obtain evsT fT where T: "token_stage b tid it l = (evsT, fT)"
    by (cases "token_stage b tid it l")
  obtain evsS fS where S: "screenshot_stage tid it l = (evsS, fS)"
    by (cases "screenshot_stage tid it l")
  from action_stage_facts [OF A] have la: "fA = Next la \<Longrightarrow> la = l" for la by auto
  from token_stage_facts [OF T] have lt: "fT = Next lt \<Longrightarrow> lt = l" for lt by auto
  show ?thesis
  proof (cases fA)
    case (Next la')
    with la have fA: "fA = Next l" by simp
    show ?thesis
    proof (cases fT)
      case (Next lt')
      with lt have fT: "fT = Next l" by simp
      show ?thesis
        unfolding body_structure [OF assms] A T S fA fT
        by (cases fS) simp_all
    next
      case Return
      show ?thesis
        unfolding body_structure [OF assms] A T fA Return by simp
    next
      case (Raised e')
      show ?thesis
        unfolding body_structure [OF assms] A T fA Raised by simp
    qed
  next
    case Return
    show ?thesis
      unfolding body_structure [OF assms] A Return by simp
  next
    case (Raised e')
    show ?thesis
      unfolding body_structure [OF assms] A Raised by simp
  qed
qed

section \<open>The solve procedure\<close>

lemma wait_loop_events:
  "x \<in> set (fst (wait_loop dl script)) \<Longrightarrow>
     x = Probe \<or> x = Sleep 1 \<or> x = Log ''Captcha expanded''
     \<or> x = Log ''Timeout: captcha did not expand in time''"
  by (induction dl script rule: wait_loop.induct)
     (auto simp: wait_more_def split: prod.splits option.splits if_splits)

lemma wait_expanded_events:
  "x \<in> set (fst (wait_expanded timeout start script)) \<Longrightarrow>
     \<not> is_network_call x \<and> (\<forall>g. x \<noteq> Replay g)"
  using wait_loop_events [of x "map_option (\<lambda>t. start + t) timeout" script]
  by (auto simp: wait_expanded_def case_prod_beta)

lemma wait_expanded_no_calls:
  "filter is_network_call (fst (wait_expanded timeout start script)) = []"
  using wait_expanded_events [of _ timeout start script]
  by (auto simp: filter_empty_conv)

lemma settle_no_calls: "filter is_network_call (settle delay) = []"
  by (simp add: settle_def)

lemma run_solve_reached:
  assumes "open_checkbox env = Completes"
    and "wait_expanded timeout (expand_start env) (expand_script env) = (evs, WaitReturned c w h)"
  shows "run_solve b url timeout delay env
     = (evs @ settle delay @ fst (create_and_run b url c w h env),
        snd (create_and_run b url c w h env))"
  using assms by (simp add: run_solve_def prepend_def)

lemma run_solve_result_cases:
  "snd (run_solve b url timeout delay env) = SolveReturned r \<Longrightarrow>
     \<exists>c w h. open_checkbox env = Completes \<and>
       snd (wait_expanded timeout (expand_start env) (expand_script env)) = WaitReturned c w h \<and>
       snd (create_and_run b url c w h env) = SolveReturned r"
  by (auto simp: run_solve_def prepend_def split: activator.splits prod.splits wait_result.splits)

lemma create_and_run_None:
  "(snd (create_and_run b url c w h env) = SolveReturned None)
     = (\<exists>res. create_task_result env = Inr res \<and> create_failed res)"
  by (auto simp: create_and_run_def start_and_loop_def prepend_def
      split: sum.splits option.splits prod.splits outcome.splits)

lemma create_and_run_Some:
  "snd (create_and_run b url c w h env) = SolveReturned (Some tid) \<Longrightarrow>
     \<exists>res. create_task_result env = Inr res \<and> \<not> create_failed res \<and> taskId res = Some tid \<and>
       start_session_exn env = None \<and>
       snd (run_loop b tid (Some c) (loop_start env) (loop_script env)) = Returned"
  by (auto simp: create_and_run_def start_and_loop_def prepend_def
      split: sum.splits option.splits prod.splits outcome.splits if_splits)

lemma create_and_run_loop_returns:
  "create_task_result env = Inr res \<Longrightarrow> \<not> create_failed res \<Longrightarrow> taskId res = Some tid \<Longrightarrow>
   first_capture env = Inr shot \<Longrightarrow> start_session_exn env = None \<Longrightarrow>
   snd (run_loop b tid (Some c) (loop_start env) (loop_script env)) = Returned \<Longrightarrow>
   snd (create_and_run b url c w h env) = SolveReturned (Some tid)"
  by (simp add: create_and_run_def start_and_loop_def prepend_def case_prod_beta)

lemma create_and_run_failed:
  "create_task_result env = Inr res \<Longrightarrow> create_failed res \<Longrightarrow>
   create_and_run b url c w h env
     = ([Log ''Creating task...'', CreateTask url, Log ''Create task failed''], SolveReturned None)"
  by (simp add: create_and_run_def)

lemma create_and_run_raised:
  "create_task_result env = Inl e \<Longrightarrow>
   create_and_run b url c w h env = ([Log ''Creating task...'', CreateTask url], SolveRaised e)"
  by (simp add: create_and_run_def)

lemma create_and_run_replay:
  "Replay g \<in> set (fst (create_and_run b url c w h env)) \<Longrightarrow>
     \<exists>tid. Replay g \<in> set (fst (run_loop b tid (Some c) (loop_start env) (loop_script env)))"
  by (simp add: create_and_run_def start_and_loop_def prepend_def case_prod_beta
      split: sum.splits option.splits if_splits) blast

lemma run_solve_replay:
  assumes "Replay g \<in> set (fst (run_solve b url timeout delay env))"
  shows "\<exists>c w h tid.
       snd (wait_expanded timeout (expand_start env) (expand_script env)) = WaitReturned c w h \<and>
       Replay g \<in> set (fst (run_loop b tid (Some c) (loop_start env) (loop_script env)))"
proof -
  obtain evs res where we: "wait_expanded timeout (expand_start env) (expand_script env) = (evs, res)"
    by (cases "wait_expanded timeout (expand_start env) (expand_script env)")
  have no: "Replay g \<notin> set evs"
    using wait_expanded_events [of "Replay g" timeout "expand_start env" "expand_script env"] we
    by auto
  from assms we no obtain c w h where "res = WaitReturned c w h"
    and "Replay g \<in> set (fst (create_and_run b url c w h env))"
    by (cases "open_checkbox env"; cases res)
       (auto simp: run_solve_def prepend_def settle_def split: if_splits)
  with create_and_run_replay [of g b url c w h env] we show ?thesis by auto
qed

lemma create_failed_iff:
  "create_failed res = (errorId res \<noteq> Some 0 \<or> taskId res = None \<or> taskId res = Some [])"
  by (auto simp: create_failed_def split: option.splits)

lemma run_solve_reached_snd:
  assumes "open_checkbox env = Completes"
    and "snd (wait_expanded timeout (expand_start env) (expand_script env)) = WaitReturned c w h"
  shows "run_solve b url timeout delay env
     = (fst (wait_expanded timeout (expand_start env) (expand_script env)) @ settle delay
          @ fst (create_and_run b url c w h env),
        snd (create_and_run b url c w h env))"
  using assms run_solve_reached [of env timeout
      "fst (wait_expanded timeout (expand_start env) (expand_script env))" c w h b url delay]
  by (cases "wait_expanded timeout (expand_start env) (expand_script env)") simp

lemma run_solve_create_failed:
  assumes "open_checkbox env = Completes"
    and "snd (wait_expanded timeout (expand_start env) (expand_script env)) = WaitReturned c w h"
    and "create_task_result env = Inr res" and "create_failed res"
  shows "snd (run_solve b url timeout delay env) = SolveReturned None"
    and "filter is_network_call (fst (run_solve b url timeout delay env)) = [CreateTask url]"
  by (simp_all add: run_solve_reached_snd [OF assms(1,2)] create_and_run_failed [OF assms(3,4)]
      settle_no_calls wait_expanded_no_calls)

lemma run_solve_create_raised:
  assumes "open_checkbox env = Completes"
    and "snd (wait_expanded timeout (expand_start env) (expand_script env)) = WaitReturned c w h"
    and "create_task_result env = Inl e"
  shows "snd (run_solve b url timeout delay env) = SolveRaised e"
    and "filter is_network_call (fst (run_solve b url timeout delay env)) = [CreateTask url]"
  by (simp_all add: run_solve_reached_snd [OF assms(1,2)] create_and_run_raised [OF assms(3)]
      settle_no_calls wait_expanded_no_calls)

text \<open>Unfolding a solve attempt on a concrete world.\<close>

lemmas solve_defs = example_env_def run_solve_def wait_expanded_def wait_more_def
  deadline_passed_def MIN_SIZE_def example_wait_script_def checkbox_document_def settle_def
  create_and_run_def start_and_loop_def create_failed_def

text \<open>After the task is created: the first screenshot, startSession, the loop.\<close>

lemma create_and_run_created:
  assumes "create_task_result env = Inr res" and "errorId res = Some 0"
    and "taskId res = Some tid" and "tid \<noteq> []"
  shows "snd (create_and_run b url c w h env) = snd (start_and_loop b url c w h env tid)"
  using assms by (simp add: create_and_run_def create_failed_def prepend_def)

lemma start_and_loop_snd:
  "snd (start_and_loop b url c w h env tid) =
     (case first_capture env of
        Inl e \<Rightarrow> SolveRaised e
      | Inr shot \<Rightarrow>
          (case start_session_exn env of
             Some e \<Rightarrow> SolveRaised e
           | None \<Rightarrow>
               (case snd (run_loop b tid (Some c) (loop_start env) (loop_script env)) of
                  Returned \<Rightarrow> SolveReturned (Some tid)
                | Escaped e \<Rightarrow> SolveRaised e
                | Running \<Rightarrow> SolveRunning)))"
  by (simp add: start_and_loop_def case_prod_beta split: sum.splits option.splits)

lemma create_and_run_Some_capture:
  "snd (create_and_run b url c w h env) = SolveReturned (Some tid) \<Longrightarrow>
     \<exists>shot. first_capture env = Inr shot"
  by (auto simp: create_and_run_def start_and_loop_def prepend_def
      split: sum.splits option.splits prod.splits outcome.splits if_splits)

section \<open>Claims about the loop and the solve procedure\<close>

text \<open>
  Claim C2, as stated, fails. The loop is started with the crop rectangle
  (20, 10, 500, 500). Its first pass pushes a screenshot, and the probe made for it finds
  the widget at (200, 200, 300, 300). The second pass receives a click at (100, 50): no
  probe is made between the poll and the replay, and the click is dispatched in the
  nested frame at (80, 40), by the rectangle the loop was started with. By the probed
  rectangle the point is outside and would go to the outer page.
\<close>

theorem stale_crop_counterexample:
  "run_loop Selenium ''task-1'' (Some example_crop) 0 stale_crop_script
     = ([GetNextAction ''task-1'', PerfCounter 0.3, Probe, Capture,
         UpdateScreenshot ''task-1'' ''data:image/png;base64,iVBOR'' 1024 768
           (Some \<lparr>left = 200, top_y = 200, width = 300, height = 300\<rparr>),
         SetLastShot 0.3, Sleep 0.12,
         GetNextAction ''task-1'', Log ''Worker action: click'',
         Replay (NestedFrame, [PointerDown 80 40, PointerUp 80 40, ClickEvent 80 40]),
         Sleep 0.08, PerfCounter 0.42, Sleep 0.12],
        Running) \<and>
   replay_click Selenium True 100 50 (Some \<lparr>left = 200, top_y = 200, width = 300, height = 300\<rparr>)
     = (OuterBody, [PointerMove 100 50, PointerDown 100 50, PointerUp 100 50])"
  by (simp add: stale_crop_script_def run_defs example_crop_def replay_click_def
      perform_click_def click_in_frame_def click_main_def inside_def)

text \<open>
  Claim C2, amended. The crop rectangle that routes and translates every click and drag
  replayed in the steady-state loop is the \<^verbatim>\<open>crop\<close> argument of \<^verbatim>\<open>_run_loop\<close>: every
  replayed gesture is the gesture of an action received in some pass, computed from that
  argument and the action. In \<^verbatim>\<open>run_solve\<close> the argument is the rectangle the Expansion
  Waiter returned before the task was created. No probe is made when an action is
  received: a pass starts with the poll and then the replay of its action, with no probe
  in it. A pass probes the geometry only in its screenshot branch, that is only when its
  clock reading is at least 200 ms after \<^verbatim>\<open>last_shot\<close>, and every screenshot upload of a
  pass carries the rectangle and the viewport probed in that same pass.
\<close>

theorem replay_uses_initial_crop:
  "(Replay g \<in> set (fst (run_loop b tid crop l script)) \<longrightarrow>
      (\<exists>it \<in> set script. \<exists>resp a msg. next_action it = Inr resp \<and> action resp = Some a \<and>
         gesture_of b (hit it) crop a = Some (msg, g))) \<and>
   (Replay g \<in> set (fst (run_solve b url timeout delay env)) \<longrightarrow>
      (\<exists>c w h. snd (wait_expanded timeout (expand_start env) (expand_script env))
                 = WaitReturned c w h \<and>
         (\<exists>it \<in> set (loop_script env). \<exists>resp a msg. next_action it = Inr resp \<and>
            action resp = Some a \<and> gesture_of b (hit it) (Some c) a = Some (msg, g)))) \<and>
   (next_action p = Inr resp \<and> \<not> (status resp = ''expired'' \<or> status resp = ''solved'') \<longrightarrow>
      (\<exists>rest. fst (iteration_body b tid crop l p)
         = GetNextAction tid # fst (action_stage b crop p (action resp) l) @ rest)) \<and>
   Probe \<notin> set (fst (action_stage b crop p act l)) \<and>
   (Probe \<in> set (fst (iteration_body b tid crop l p)) \<longrightarrow>
      SCREENSHOT_INTERVAL_S \<le> now p - l) \<and>
   (UpdateScreenshot t s vw vh r \<in> set (fst (iteration_body b tid crop l p)) \<longrightarrow>
      t = tid \<and> (\<exists>d. probe p = Inr d \<and> get_viewport_and_crop d = (r, vw, vh)))"
proof (intro conjI impI)
  assume "Replay g \<in> set (fst (run_loop b tid crop l script))"
  from run_loop_replay [OF this]
  show "\<exists>it \<in> set script. \<exists>resp a msg. next_action it = Inr resp \<and> action resp = Some a \<and>
         gesture_of b (hit it) crop a = Some (msg, g)" .
next
  assume "Replay g \<in> set (fst (run_solve b url timeout delay env))"
  from run_solve_replay [OF this] obtain c w h tid' where
    w: "snd (wait_expanded timeout (expand_start env) (expand_script env)) = WaitReturned c w h"
    and r: "Replay g \<in> set (fst (run_loop b tid' (Some c) (loop_start env) (loop_script env)))"
    by blast
  from run_loop_replay [OF r] w
  show "\<exists>c w h. snd (wait_expanded timeout (expand_start env) (expand_script env))
                 = WaitReturned c w h \<and>
         (\<exists>it \<in> set (loop_script env). \<exists>resp a msg. next_action it = Inr resp \<and>
            action resp = Some a \<and> gesture_of b (hit it) (Some c) a = Some (msg, g))"
    by blast
next
  assume "next_action p = Inr resp \<and> \<not> (status resp = ''expired'' \<or> status resp = ''solved'')"
  then show "\<exists>rest. fst (iteration_body b tid crop l p)
         = GetNextAction tid # fst (action_stage b crop p (action resp) l) @ rest"
    using body_prefix [of p resp b tid crop l] by simp
next
  show "Probe \<notin> set (fst (action_stage b crop p act l))"
    using action_stage_no_probe [of b crop p act l] by simp
next
  assume "Probe \<in> set (fst (iteration_body b tid crop l p))"
  with body_probe [of b tid crop l p] show "SCREENSHOT_INTERVAL_S \<le> now p - l"
    by simp
next
  assume u: "UpdateScreenshot t s vw vh r \<in> set (fst (iteration_body b tid crop l p))"
  with body_probe [of b tid crop l p t s vw vh r] show "t = tid" by simp
  from u body_probe [of b tid crop l p t s vw vh r]
  show "\<exists>d. probe p = Inr d \<and> get_viewport_and_crop d = (r, vw, vh)" by simp
qed

theorem replay_uses_initial_crop_witness:
  "Replay (NestedFrame, [PointerDown 80 40, PointerUp 80 40, ClickEvent 80 40])
     \<in> set (fst (run_loop Selenium ''task-1'' (Some example_crop) 0 stale_crop_script)) \<and>
   gesture_of Selenium True (Some example_crop) (ClickAction (Some 100) (Some 50))
     = Some (''Worker action: click'',
             (NestedFrame, [PointerDown 80 40, PointerUp 80 40, ClickEvent 80 40]))"
  using replay_uses_initial_crop [of "(NestedFrame, [PointerDown 80 40, PointerUp 80 40, ClickEvent 80 40])"
      Selenium "''task-1''" "Some example_crop" 0 stale_crop_script]
  by (simp add: stale_crop_script_def run_defs example_crop_def replay_click_def
      perform_click_def click_in_frame_def click_main_def inside_def)

text \<open>
  Claim C3, as stated, fails in an execution in which a pass raises and is retried: both
  passes of \<open>retry_script\<close> see the token; \<^verbatim>\<open>api.notify_solved\<close> raises in the first,
  the loop's handler logs, backs off and goes round, and the second pass calls it again.
  One session, two calls.
\<close>

theorem notify_retried_counterexample:
  "run_loop Selenium ''task-1'' (Some example_crop) 0 retry_script
     = ([GetNextAction ''task-1'', Log ''Captcha solved, submitting token...'',
         NotifySolved ''task-1'' ''abc123'', Log ''Loop error'', Sleep 1,
         GetNextAction ''task-1'', Log ''Captcha solved, submitting token...'',
         NotifySolved ''task-1'' ''abc123'', Log ''Token submitted successfully''],
        Returned) \<and>
   length (filter is_notify (fst (run_loop Selenium ''task-1'' (Some example_crop) 0 retry_script)))
     = 2"
  by (simp add: retry_script_def run_defs)

text \<open>
  Claim C3, amended. Every call of notifySolved in a run of the loop carries the loop's
  task id and a non-empty token that the Token Watcher returned in a pass of that run.
  In every run in which no call of notifySolved raises, it is called at most once. A
  pass whose poll reports a session still open, whose action (if any) is replayed
  without an exception, and in which the Token Watcher returns a token, calls
  notifySolved with the task id and that token, whatever the passes before it did. When
  the call returns, the loop logs "Token submitted successfully" and returns. When the
  call raises an exception derived from Exception (and no interrupt arrives during the
  back-off), the loop logs "Loop error", sleeps 1 s and goes on with the next pass,
  \<^verbatim>\<open>last_shot\<close> unchanged; that pass, if it gets a token, calls notifySolved again.
\<close>

theorem notify_solved_contract:
  "(NotifySolved t k \<in> set (fst (run_loop b tid crop l script)) \<longrightarrow>
      t = tid \<and> k \<noteq> [] \<and> (\<exists>it \<in> set script. get_token b (token_field it) = Inr (Some k))) \<and>
   ((\<forall>it \<in> set script. notify_exn it = None) \<longrightarrow>
      length (filter is_notify (fst (run_loop b tid crop l script))) \<le> 1) \<and>
   (next_action p = Inr resp \<and> \<not> (status resp = ''expired'' \<or> status resp = ''solved'') \<and>
    action_stage b crop p (action resp) l = (evsA, Next l) \<and>
    get_token b (token_field p) = Inr (Some token) \<and> notify_exn p = None \<longrightarrow>
      run_loop b tid crop l (p # rest)
        = (GetNextAction tid # evsA
             @ [Log ''Captcha solved, submitting token...'', NotifySolved tid token,
                Log ''Token submitted successfully''],
           Returned)) \<and>
   (next_action p = Inr resp \<and> \<not> (status resp = ''expired'' \<or> status resp = ''solved'') \<and>
    action_stage b crop p (action resp) l = (evsA, Next l) \<and>
    get_token b (token_field p) = Inr (Some token) \<and> notify_exn p = Some e \<and>
    e \<noteq> KeyboardInterrupt \<and> \<not> backoff_interrupted p \<longrightarrow>
      run_loop b tid crop l (p # rest)
        = (GetNextAction tid # evsA
             @ [Log ''Captcha solved, submitting token...'', NotifySolved tid token,
                Log ''Loop error'', Sleep 1]
             @ fst (run_loop b tid crop l rest),
           snd (run_loop b tid crop l rest)))"
proof (intro conjI impI)
  assume "NotifySolved t k \<in> set (fst (run_loop b tid crop l script))"
  from run_loop_notify_args [OF this]
  show "t = tid" "k \<noteq> []" "\<exists>it \<in> set script. get_token b (token_field it) = Inr (Some k)"
    by simp_all
next
  assume "\<forall>it \<in> set script. notify_exn it = None"
  then show "length (filter is_notify (fst (run_loop b tid crop l script))) \<le> 1"
    by (rule run_loop_notify_once)
next
  assume a: "next_action p = Inr resp \<and> \<not> (status resp = ''expired'' \<or> status resp = ''solved'') \<and>
    action_stage b crop p (action resp) l = (evsA, Next l) \<and>
    get_token b (token_field p) = Inr (Some token) \<and> notify_exn p = None"
  then have "iteration_body b tid crop l p
      = (GetNextAction tid # evsA
           @ [Log ''Captcha solved, submitting token...'', NotifySolved tid token,
              Log ''Token submitted successfully''], Return)"
    using body_notify_raises [of p resp b crop l evsA token tid] by simp
  then show "run_loop b tid crop l (p # rest)
        = (GetNextAction tid # evsA
             @ [Log ''Captcha solved, submitting token...'', NotifySolved tid token,
                Log ''Token submitted successfully''],
           Returned)"
    by (simp add: run_loop_Cons_cases del: run_loop.simps)
next
  assume a: "next_action p = Inr resp \<and> \<not> (status resp = ''expired'' \<or> status resp = ''solved'') \<and>
    action_stage b crop p (action resp) l = (evsA, Next l) \<and>
    get_token b (token_field p) = Inr (Some token) \<and> notify_exn p = Some e \<and>
    e \<noteq> KeyboardInterrupt \<and> \<not> backoff_interrupted p"
  then have "iteration_body b tid crop l p
      = (GetNextAction tid # evsA
           @ [Log ''Captcha solved, submitting token...'', NotifySolved tid token], Raised e)"
    using body_notify_raises [of p resp b crop l evsA token tid] by simp
  with a show "run_loop b tid crop l (p # rest)
        = (GetNextAction tid # evsA
             @ [Log ''Captcha solved, submitting token...'', NotifySolved tid token,
                Log ''Loop error'', Sleep 1]
             @ fst (run_loop b tid crop l rest),
           snd (run_loop b tid crop l rest))"
    by (simp add: run_loop_Cons_cases del: run_loop.simps)
qed

theorem notify_solved_contract_witness:
  "NotifySolved ''task-1'' ''abc123''
     \<in> set (fst (run_loop Playwright ''task-1'' None 0
          [quiet_iteration\<lparr>token_field := Inr (Some ''abc123'')\<rparr>, quiet_iteration])) \<and>
   get_token Playwright (token_field (quiet_iteration\<lparr>token_field := Inr (Some ''abc123'')\<rparr>))
     = Inr (Some ''abc123'') \<and>
   length (filter is_notify (fst (run_loop Playwright ''task-1'' None 0
          [quiet_iteration\<lparr>token_field := Inr (Some ''abc123'')\<rparr>, quiet_iteration]))) = 1"
  using notify_solved_contract [of "''task-1''" "''abc123''" Playwright "''task-1''" None 0
      "[quiet_iteration\<lparr>token_field := Inr (Some ''abc123'')\<rparr>, quiet_iteration]"]
  by (simp add: run_defs)

text \<open>
  Claim C8, as stated, fails for an exception raised in the screenshot branch. In the
  first pass of \<open>failed_upload_script\<close> \<^verbatim>\<open>api.update_screenshot\<close> raises; the inner
  handler logs it and the pass goes on to the ordinary 0.12 s poll sleep. The run has no
  one-second back-off anywhere.
\<close>

theorem screenshot_error_backoff_counterexample:
  "run_loop Selenium ''task-1'' (Some example_crop) 0 failed_upload_script
     = ([GetNextAction ''task-1'', PerfCounter 0.25, Probe, Capture,
         UpdateScreenshot ''task-1'' ''data:image/png;base64,iVBOR'' 1024 720
           (Some \<lparr>left = 100, top_y = 50, width = 400, height = 600\<rparr>),
         Log ''Screenshot update error'', Sleep 0.12,
         GetNextAction ''task-1'', PerfCounter 0.4, Probe, Capture,
         UpdateScreenshot ''task-1'' ''data:image/png;base64,iVBOR'' 1024 720
           (Some \<lparr>left = 100, top_y = 50, width = 400, height = 600\<rparr>),
         SetLastShot 0.4, Sleep 0.12],
        Running) \<and>
   Sleep 1 \<notin> set (fst (run_loop Selenium ''task-1'' (Some example_crop) 0 failed_upload_script))"
  by (simp add: failed_upload_script_def run_defs)

text \<open>
  Claim C8, amended. A KeyboardInterrupt raised in the \<^verbatim>\<open>try\<close> body of a pass ends the
  loop: "Interrupted by user" is logged, the loop returns, and nothing of what the world
  would do next is used. The body raises it when it arrives in the poll, in the replay of
  the action or the pause after it, in the token lookup, in notifySolved, in the probe,
  the capture or the upload of the screenshot branch, or in the poll sleep; the trace of
  the pass ends at that point. An exception derived from Exception that leaves the body
  of a pass is caught by the loop's handler: "Loop error" is logged, the loop sleeps
  1.0 s and goes on with the next pass, \<^verbatim>\<open>last_shot\<close> unchanged. It leaves the body when
  the poll, the replay, the token lookup or notifySolved raises it. Raised in the
  screenshot branch (probe, capture or upload) it never leaves the body: the inner
  handler logs "Screenshot update error" and the pass goes on to its 0.12 s poll sleep,
  with no back-off. No exception derived from Exception ends the loop. A
  KeyboardInterrupt that arrives while the handler of a failed pass logs and sleeps is
  outside the \<^verbatim>\<open>try\<close> body and leaves the loop uncaught.
\<close>

theorem loop_exception_handling:
  "(iteration_body b tid crop l it = (evs, Raised KeyboardInterrupt) \<longrightarrow>
      run_loop b tid crop l (it # its) = (evs @ [Log ''Interrupted by user''], Returned)) \<and>
   (iteration_body b tid crop l it = (evs, Raised e) \<and> e \<noteq> KeyboardInterrupt \<and>
    \<not> backoff_interrupted it \<longrightarrow>
      run_loop b tid crop l (it # its)
        = (evs @ [Log ''Loop error'', Sleep 1] @ fst (run_loop b tid crop l its),
           snd (run_loop b tid crop l its))) \<and>
   (next_action it = Inl e \<longrightarrow>
      iteration_body b tid crop l it = ([GetNextAction tid], Raised e)) \<and>
   (snd (screenshot_stage tid it l) = Raised e \<longrightarrow> e = KeyboardInterrupt) \<and>
   (SCREENSHOT_INTERVAL_S \<le> now it - l \<and> probe it = Inr d \<and> capture it = Inr shot \<and>
    upload_exn it = Some e \<and> e \<noteq> KeyboardInterrupt \<longrightarrow>
      screenshot_stage tid it l
        = ([PerfCounter (now it), Probe, Capture,
            UpdateScreenshot tid (''data:image/png;base64,'' @ shot)
              (fst (snd (get_viewport_and_crop d))) (snd (snd (get_viewport_and_crop d)))
              (fst (get_viewport_and_crop d)),
            Log ''Screenshot update error''], Next l) \<and>
      then_do (screenshot_stage tid it l) (sleep_stage it)
        = (fst (screenshot_stage tid it l) @ fst (sleep_stage it l), snd (sleep_stage it l))) \<and>
   (snd (run_loop b tid crop l script) = Escaped e \<longrightarrow> e = KeyboardInterrupt) \<and>
   (next_action it = Inr resp \<and> \<not> (status resp = ''expired'' \<or> status resp = ''solved'') \<longrightarrow>
      iteration_body b tid crop l it =
        (case action_stage b crop it (action resp) l of
           (evsA, Next la) \<Rightarrow>
             (case token_stage b tid it l of
                (evsT, Next lt) \<Rightarrow>
                  (case screenshot_stage tid it l of
                     (evsS, Next l') \<Rightarrow>
                       (GetNextAction tid # evsA @ evsT @ evsS @ fst (sleep_stage it l'),
                        snd (sleep_stage it l'))
                   | (evsS, Return) \<Rightarrow> (GetNextAction tid # evsA @ evsT @ evsS, Return)
                   | (evsS, Raised x) \<Rightarrow> (GetNextAction tid # evsA @ evsT @ evsS, Raised x))
              | (evsT, Return) \<Rightarrow> (GetNextAction tid # evsA @ evsT, Return)
              | (evsT, Raised x) \<Rightarrow> (GetNextAction tid # evsA @ evsT, Raised x))
         | (evsA, Return) \<Rightarrow> (GetNextAction tid # evsA, Return)
         | (evsA, Raised x) \<Rightarrow> (GetNextAction tid # evsA, Raised x))) \<and>
   (next_action it = Inr resp \<and> \<not> (status resp = ''expired'' \<or> status resp = ''solved'') \<longrightarrow>
      (snd (iteration_body b tid crop l it) = Raised e)
        = (snd (action_stage b crop it (action resp) l) = Raised e \<or>
           snd (action_stage b crop it (action resp) l) = Next l \<and>
           (snd (token_stage b tid it l) = Raised e \<or>
            snd (token_stage b tid it l) = Next l \<and>
            (snd (screenshot_stage tid it l) = Raised e \<or>
             (\<exists>l'. snd (screenshot_stage tid it l) = Next l' \<and>
                snd (sleep_stage it l') = Raised e))))) \<and>
   ((snd (action_stage b crop it act l) = Raised e)
      = (\<exists>a msg g. act = Some a \<and> gesture_of b (hit it) crop a = Some (msg, g) \<and>
           replay_exn it = Some e)) \<and>
   (gesture_of b (hit it) crop a = Some (msg, g) \<and> replay_exn it = Some e \<longrightarrow>
      action_stage b crop it (Some a) l = ([Log msg, Replay g], Raised e)) \<and>
   ((snd (token_stage b tid it l) = Raised e)
      = (get_token b (token_field it) = Inl e \<or>
         (\<exists>k. get_token b (token_field it) = Inr (Some k) \<and> notify_exn it = Some e))) \<and>
   (get_token b (token_field it) = Inl e \<longrightarrow> token_stage b tid it l = ([], Raised e)) \<and>
   (get_token b (token_field it) = Inr (Some k) \<and> notify_exn it = Some e \<longrightarrow>
      token_stage b tid it l
        = ([Log ''Captcha solved, submitting token...'', NotifySolved tid k], Raised e)) \<and>
   ((snd (screenshot_stage tid it l) = Raised e)
      = (e = KeyboardInterrupt \<and> SCREENSHOT_INTERVAL_S \<le> now it - l \<and>
         (probe it = Inl e \<or>
          (\<exists>d. probe it = Inr d \<and>
             (capture it = Inl e \<or> (\<exists>s. capture it = Inr s \<and> upload_exn it = Some e)))))) \<and>
   (SCREENSHOT_INTERVAL_S \<le> now it - l \<and> probe it = Inl e \<longrightarrow>
      screenshot_stage tid it l
        = (if e = KeyboardInterrupt then ([PerfCounter (now it), Probe], Raised e)
           else ([PerfCounter (now it), Probe, Log ''Screenshot update error''], Next l))) \<and>
   (SCREENSHOT_INTERVAL_S \<le> now it - l \<and> probe it = Inr d \<and> capture it = Inl e \<longrightarrow>
      screenshot_stage tid it l
        = (if e = KeyboardInterrupt then ([PerfCounter (now it), Probe, Capture], Raised e)
           else ([PerfCounter (now it), Probe, Capture, Log ''Screenshot update error''],
                 Next l))) \<and>
   (SCREENSHOT_INTERVAL_S \<le> now it - l \<and> probe it = Inr d \<and> capture it = Inr shot \<and>
    upload_exn it = Some KeyboardInterrupt \<longrightarrow>
      screenshot_stage tid it l
        = ([PerfCounter (now it), Probe, Capture,
            UpdateScreenshot tid (''data:image/png;base64,'' @ shot)
              (fst (snd (get_viewport_and_crop d))) (snd (snd (get_viewport_and_crop d)))
              (fst (get_viewport_and_crop d))], Raised KeyboardInterrupt)) \<and>
   ((snd (sleep_stage it l) = Raised e) = (e = KeyboardInterrupt \<and> poll_sleep_interrupted it)) \<and>
   (poll_sleep_interrupted it \<longrightarrow> sleep_stage it l = ([], Raised KeyboardInterrupt)) \<and>
   (iteration_body b tid crop l it = (evs, Raised e) \<and> e \<noteq> KeyboardInterrupt \<and>
    backoff_interrupted it \<longrightarrow>
      run_loop b tid crop l (it # its) = (evs @ [Log ''Loop error''], Escaped KeyboardInterrupt))"
proof -
  have interrupt: "iteration_body b tid crop l it = (evs, Raised KeyboardInterrupt) \<longrightarrow>
      run_loop b tid crop l (it # its) = (evs @ [Log ''Interrupted by user''], Returned)"
    by (simp add: run_loop_Cons_cases del: run_loop.simps)
  have backoff: "iteration_body b tid crop l it = (evs, Raised e) \<and> e \<noteq> KeyboardInterrupt \<and>
    \<not> backoff_interrupted it \<longrightarrow>
      run_loop b tid crop l (it # its)
        = (evs @ [Log ''Loop error'', Sleep 1] @ fst (run_loop b tid crop l its),
           snd (run_loop b tid crop l its))"
    by (simp add: run_loop_Cons_cases del: run_loop.simps)
  have poll: "next_action it = Inl e \<longrightarrow>
      iteration_body b tid crop l it = ([GetNextAction tid], Raised e)"
    by (simp add: iteration_body_def)
  have inner: "snd (screenshot_stage tid it l) = Raised e \<longrightarrow> e = KeyboardInterrupt"
    using screenshot_stage_facts [of tid it l "fst (screenshot_stage tid it l)"
        "snd (screenshot_stage tid it l)"]
    by simp
  have upload: "SCREENSHOT_INTERVAL_S \<le> now it - l \<and> probe it = Inr d \<and> capture it = Inr shot \<and>
    upload_exn it = Some e \<and> e \<noteq> KeyboardInterrupt \<longrightarrow>
      screenshot_stage tid it l
        = ([PerfCounter (now it), Probe, Capture,
            UpdateScreenshot tid (''data:image/png;base64,'' @ shot)
              (fst (snd (get_viewport_and_crop d))) (snd (snd (get_viewport_and_crop d)))
              (fst (get_viewport_and_crop d)),
            Log ''Screenshot update error''], Next l) \<and>
      then_do (screenshot_stage tid it l) (sleep_stage it)
        = (fst (screenshot_stage tid it l) @ fst (sleep_stage it l), snd (sleep_stage it l))"
    by (simp add: screenshot_stage_def shot_failed_def then_do_def case_prod_beta)
  have escaped: "snd (run_loop b tid crop l script) = Escaped e \<longrightarrow> e = KeyboardInterrupt"
    using run_loop_escaped [of b tid crop l script e] by blast
  have composed: "next_action it = Inr resp \<and>
      \<not> (status resp = ''expired'' \<or> status resp = ''solved'') \<longrightarrow>
      iteration_body b tid crop l it =
        (case action_stage b crop it (action resp) l of
           (evsA, Next la) \<Rightarrow>
             (case token_stage b tid it l of
                (evsT, Next lt) \<Rightarrow>
                  (case screenshot_stage tid it l of
                     (evsS, Next l') \<Rightarrow>
                       (GetNextAction tid # evsA @ evsT @ evsS @ fst (sleep_stage it l'),
                        snd (sleep_stage it l'))
                   | (evsS, Return) \<Rightarrow> (GetNextAction tid # evsA @ evsT @ evsS, Return)
                   | (evsS, Raised x) \<Rightarrow> (GetNextAction tid # evsA @ evsT @ evsS, Raised x))
              | (evsT, Return) \<Rightarrow> (GetNextAction tid # evsA @ evsT, Return)
              | (evsT, Raised x) \<Rightarrow> (GetNextAction tid # evsA @ evsT, Raised x))
         | (evsA, Return) \<Rightarrow> (GetNextAction tid # evsA, Return)
         | (evsA, Raised x) \<Rightarrow> (GetNextAction tid # evsA, Raised x))"
  proof
    assume a: "next_action it = Inr resp \<and>
      \<not> (status resp = ''expired'' \<or> status resp = ''solved'')"
    show "iteration_body b tid crop l it =
        (case action_stage b crop it (action resp) l of
           (evsA, Next la) \<Rightarrow>
             (case token_stage b tid it l of
                (evsT, Next lt) \<Rightarrow>
                  (case screenshot_stage tid it l of
                     (evsS, Next l') \<Rightarrow>
                       (GetNextAction tid # evsA @ evsT @ evsS @ fst (sleep_stage it l'),
                        snd (sleep_stage it l'))
                   | (evsS, Return) \<Rightarrow> (GetNextAction tid # evsA @ evsT @ evsS, Return)
                   | (evsS, Raised x) \<Rightarrow> (GetNextAction tid # evsA @ evsT @ evsS, Raised x))
              | (evsT, Return) \<Rightarrow> (GetNextAction tid # evsA @ evsT, Return)
              | (evsT, Raised x) \<Rightarrow> (GetNextAction tid # evsA @ evsT, Raised x))
         | (evsA, Return) \<Rightarrow> (GetNextAction tid # evsA, Return)
         | (evsA, Raised x) \<Rightarrow> (GetNextAction tid # evsA, Raised x))"
      by (rule body_structure [OF a [THEN conjunct1] a [THEN conjunct2]])
  qed
  have raised: "next_action it = Inr resp \<and>
      \<not> (status resp = ''expired'' \<or> status resp = ''solved'') \<longrightarrow>
      (snd (iteration_body b tid crop l it) = Raised e)
        = (snd (action_stage b crop it (action resp) l) = Raised e \<or>
           snd (action_stage b crop it (action resp) l) = Next l \<and>
           (snd (token_stage b tid it l) = Raised e \<or>
            snd (token_stage b tid it l) = Next l \<and>
            (snd (screenshot_stage tid it l) = Raised e \<or>
             (\<exists>l'. snd (screenshot_stage tid it l) = Next l' \<and>
                snd (sleep_stage it l') = Raised e))))"
  proof
    assume a: "next_action it = Inr resp \<and>
      \<not> (status resp = ''expired'' \<or> status resp = ''solved'')"
    show "(snd (iteration_body b tid crop l it) = Raised e)
        = (snd (action_stage b crop it (action resp) l) = Raised e \<or>
           snd (action_stage b crop it (action resp) l) = Next l \<and>
           (snd (token_stage b tid it l) = Raised e \<or>
            snd (token_stage b tid it l) = Next l \<and>
            (snd (screenshot_stage tid it l) = Raised e \<or>
             (\<exists>l'. snd (screenshot_stage tid it l) = Next l' \<and>
                snd (sleep_stage it l') = Raised e))))"
      by (rule body_raised_iff [OF a [THEN conjunct1] a [THEN conjunct2]])
  qed
  have act_iff: "(snd (action_stage b crop it act l) = Raised e)
      = (\<exists>a msg g. act = Some a \<and> gesture_of b (hit it) crop a = Some (msg, g) \<and>
           replay_exn it = Some e)"
    by (rule action_stage_raised_iff)
  have act: "gesture_of b (hit it) crop a = Some (msg, g) \<and> replay_exn it = Some e \<longrightarrow>
      action_stage b crop it (Some a) l = ([Log msg, Replay g], Raised e)"
    by (simp add: action_stage_def)
  have tok_iff: "(snd (token_stage b tid it l) = Raised e)
      = (get_token b (token_field it) = Inl e \<or>
         (\<exists>k. get_token b (token_field it) = Inr (Some k) \<and> notify_exn it = Some e))"
    by (rule token_stage_raised_iff)
  have tok: "get_token b (token_field it) = Inl e \<longrightarrow> token_stage b tid it l = ([], Raised e)"
    by (simp add: token_stage_def)
  have notify: "get_token b (token_field it) = Inr (Some k) \<and> notify_exn it = Some e \<longrightarrow>
      token_stage b tid it l
        = ([Log ''Captcha solved, submitting token...'', NotifySolved tid k], Raised e)"
    by (simp add: token_stage_def)
  have shot_iff: "(snd (screenshot_stage tid it l) = Raised e)
      = (e = KeyboardInterrupt \<and> SCREENSHOT_INTERVAL_S \<le> now it - l \<and>
         (probe it = Inl e \<or>
          (\<exists>d. probe it = Inr d \<and>
             (capture it = Inl e \<or> (\<exists>s. capture it = Inr s \<and> upload_exn it = Some e)))))"
    by (rule screenshot_stage_raised_iff)
  have shot_probe: "SCREENSHOT_INTERVAL_S \<le> now it - l \<and> probe it = Inl e \<longrightarrow>
      screenshot_stage tid it l
        = (if e = KeyboardInterrupt then ([PerfCounter (now it), Probe], Raised e)
           else ([PerfCounter (now it), Probe, Log ''Screenshot update error''], Next l))"
    by (simp add: screenshot_stage_def shot_failed_def)
  have shot_capture: "SCREENSHOT_INTERVAL_S \<le> now it - l \<and> probe it = Inr d \<and>
      capture it = Inl e \<longrightarrow>
      screenshot_stage tid it l
        = (if e = KeyboardInterrupt then ([PerfCounter (now it), Probe, Capture], Raised e)
           else ([PerfCounter (now it), Probe, Capture, Log ''Screenshot update error''],
                 Next l))"
    by (simp add: screenshot_stage_def shot_failed_def)
  have shot_upload: "SCREENSHOT_INTERVAL_S \<le> now it - l \<and> probe it = Inr d \<and>
      capture it = Inr shot \<and> upload_exn it = Some KeyboardInterrupt \<longrightarrow>
      screenshot_stage tid it l
        = ([PerfCounter (now it), Probe, Capture,
            UpdateScreenshot tid (''data:image/png;base64,'' @ shot)
              (fst (snd (get_viewport_and_crop d))) (snd (snd (get_viewport_and_crop d)))
              (fst (get_viewport_and_crop d))], Raised KeyboardInterrupt)"
    by (simp add: screenshot_stage_def shot_failed_def case_prod_beta)
  have sleep_iff: "(snd (sleep_stage it l) = Raised e)
      = (e = KeyboardInterrupt \<and> poll_sleep_interrupted it)"
    by (rule sleep_stage_raised_iff)
  have sleep: "poll_sleep_interrupted it \<longrightarrow> sleep_stage it l = ([], Raised KeyboardInterrupt)"
    by (simp add: sleep_stage_def)
  have escapes: "iteration_body b tid crop l it = (evs, Raised e) \<and> e \<noteq> KeyboardInterrupt \<and>
      backoff_interrupted it \<longrightarrow>
      run_loop b tid crop l (it # its) = (evs @ [Log ''Loop error''], Escaped KeyboardInterrupt)"
    by (simp add: run_loop_Cons_cases del: run_loop.simps)
  show ?thesis
    by (intro conjI) (fact interrupt backoff poll inner upload escaped composed raised
        act_iff act tok_iff tok notify shot_iff shot_probe shot_capture shot_upload
        sleep_iff sleep escapes)+
qed

theorem loop_exception_handling_witness:
  "run_loop Selenium ''task-1'' (Some example_crop) 0
       [quiet_iteration\<lparr>next_action := Inl KeyboardInterrupt\<rparr>, quiet_iteration]
     = ([GetNextAction ''task-1'', Log ''Interrupted by user''], Returned) \<and>
   run_loop Selenium ''task-1'' (Some example_crop) 0
       [quiet_iteration\<lparr>next_action := Inl OtherException\<rparr>,
        quiet_iteration\<lparr>next_action := Inl KeyboardInterrupt\<rparr>]
     = ([GetNextAction ''task-1'', Log ''Loop error'', Sleep 1,
         GetNextAction ''task-1'', Log ''Interrupted by user''], Returned) \<and>
   run_loop Selenium ''task-1'' (Some example_crop) 0 interrupted_script
     = ([GetNextAction ''task-1'', Log ''Loop error'', Sleep 1,
         GetNextAction ''task-1'', PerfCounter 0.1, Sleep 0.12,
         GetNextAction ''task-1'', Log ''Interrupted by user''],
        Returned) \<and>
   run_loop Selenium ''task-1'' (Some example_crop) 0
       [quiet_iteration\<lparr>next_action :=
            Inr \<lparr>status = ''active'', action = Some (ClickAction (Some 100) (Some 50))\<rparr>,
          replay_exn := Some KeyboardInterrupt\<rparr>,
        quiet_iteration]
     = ([GetNextAction ''task-1'', Log ''Worker action: click'',
         Replay (NestedFrame, [PointerDown 80 40, PointerUp 80 40, ClickEvent 80 40]),
         Log ''Interrupted by user''],
        Returned)"
proof -
  have ki: "iteration_body Selenium ''task-1'' (Some example_crop) 0
        (quiet_iteration\<lparr>next_action := Inl KeyboardInterrupt\<rparr>)
      = ([GetNextAction ''task-1''], Raised KeyboardInterrupt)"
    by (simp add: quiet_iteration_def iteration_body_def)
  have a: "run_loop Selenium ''task-1'' (Some example_crop) 0
       (quiet_iteration\<lparr>next_action := Inl KeyboardInterrupt\<rparr> # its)
     = ([GetNextAction ''task-1''] @ [Log ''Interrupted by user''], Returned)" for its
    by (rule loop_exception_handling [THEN conjunct1, rule_format, OF ki])
  have other: "iteration_body Selenium ''task-1'' (Some example_crop) 0
        (quiet_iteration\<lparr>next_action := Inl OtherException\<rparr>)
      = ([GetNextAction ''task-1''], Raised OtherException) \<and>
    OtherException \<noteq> KeyboardInterrupt \<and>
    \<not> backoff_interrupted (quiet_iteration\<lparr>next_action := Inl OtherException\<rparr>)"
    by (simp add: quiet_iteration_def iteration_body_def)
  have b: "run_loop Selenium ''task-1'' (Some example_crop) 0
       (quiet_iteration\<lparr>next_action := Inl OtherException\<rparr> # its)
     = ([GetNextAction ''task-1''] @ [Log ''Loop error'', Sleep 1]
          @ fst (run_loop Selenium ''task-1'' (Some example_crop) 0 its),
        snd (run_loop Selenium ''task-1'' (Some example_crop) 0 its))" for its
    by (rule loop_exception_handling [THEN conjunct2, THEN conjunct1, rule_format, OF other])
  have c: "run_loop Selenium ''task-1'' (Some example_crop) 0 interrupted_script
     = ([GetNextAction ''task-1'', Log ''Loop error'', Sleep 1,
         GetNextAction ''task-1'', PerfCounter 0.1, Sleep 0.12,
         GetNextAction ''task-1'', Log ''Interrupted by user''],
        Returned)"
    by (simp add: interrupted_script_def run_defs)
  have d: "run_loop Selenium ''task-1'' (Some example_crop) 0
       [quiet_iteration\<lparr>next_action :=
            Inr \<lparr>status = ''active'', action = Some (ClickAction (Some 100) (Some 50))\<rparr>,
          replay_exn := Some KeyboardInterrupt\<rparr>,
        quiet_iteration]
     = ([GetNextAction ''task-1'', Log ''Worker action: click'',
         Replay (NestedFrame, [PointerDown 80 40, PointerUp 80 40, ClickEvent 80 40]),
         Log ''Interrupted by user''],
        Returned)"
    by (simp add: run_defs example_crop_def replay_click_def perform_click_def
        click_in_frame_def click_main_def inside_def)
  from a [of "[quiet_iteration]"]
    b [of "[quiet_iteration\<lparr>next_action := Inl KeyboardInterrupt\<rparr>]"]
    a [of "[]"] c d
  show ?thesis by (simp del: run_loop.simps)
qed

lemma screenshot_stage_guard:
  "UpdateScreenshot t s w h r \<in> set (fst (screenshot_stage tid it l)) \<Longrightarrow>
     SCREENSHOT_INTERVAL_S \<le> now it - l"
  by (auto simp: screenshot_stage_def split: if_splits)

lemma screenshot_stage_stored:
  "SetLastShot t \<in> set (fst (screenshot_stage tid it l)) \<Longrightarrow>
     t = now it \<and> upload_exn it = None \<and> SCREENSHOT_INTERVAL_S \<le> now it - l"
  by (auto simp: screenshot_stage_def shot_failed_def
      split: if_splits sum.splits option.splits prod.splits)

text \<open>
  Claim C9, as stated, fails when a push raises. In \<open>failed_upload_script\<close> the first
  pass reads the clock at 0.25 s and calls \<^verbatim>\<open>api.update_screenshot\<close>, which raises, so
  \<^verbatim>\<open>last_shot\<close> stays at 0; the second pass reads 0.40 s and pushes again: two
  consecutive pushes 150 ms apart.
\<close>

theorem push_interval_counterexample:
  "push_times 0 (fst (run_loop Selenium ''task-1'' (Some example_crop) 0 failed_upload_script))
     = [0.25, 0.4] \<and>
   (0.4 :: real) - 0.25 < SCREENSHOT_INTERVAL_S"
  by (simp add: failed_upload_script_def run_defs)

text \<open>
  Claim C9, amended. \<^verbatim>\<open>last_shot\<close> starts as the clock reading taken when the loop is
  entered and is set, after each push that succeeds, to the reading taken in that pass
  before the push. A push is issued only when the reading of its pass is at least
  \<^verbatim>\<open>SCREENSHOT_INTERVAL_S\<close> = 0.2 s after \<^verbatim>\<open>last_shot\<close>, and none is issued when it is
  less. So the readings of consecutive successful pushes are at least 200 ms apart, and
  the first is at least 200 ms after the loop was entered. (A push that raises leaves
  \<^verbatim>\<open>last_shot\<close> as it was.)
\<close>

theorem stored_pushes_spaced:
  "SCREENSHOT_INTERVAL_S = 2 / 10 \<and>
   spaced l (shot_times (fst (run_loop b tid crop l script))) \<and>
   (UpdateScreenshot t s w h r \<in> set (fst (screenshot_stage tid it l)) \<longrightarrow>
      SCREENSHOT_INTERVAL_S \<le> now it - l) \<and>
   (SetLastShot t' \<in> set (fst (screenshot_stage tid it l)) \<longrightarrow>
      t' = now it \<and> upload_exn it = None \<and> SCREENSHOT_INTERVAL_S \<le> now it - l) \<and>
   (now it - l < SCREENSHOT_INTERVAL_S \<longrightarrow>
      screenshot_stage tid it l = ([PerfCounter (now it)], Next l))"
proof (intro conjI impI)
  show "SCREENSHOT_INTERVAL_S = 2 / 10"
    by (simp add: SCREENSHOT_INTERVAL_S_def)
  show "spaced l (shot_times (fst (run_loop b tid crop l script)))"
    by (rule run_loop_spaced)
  show "SCREENSHOT_INTERVAL_S \<le> now it - l"
    if "UpdateScreenshot t s w h r \<in> set (fst (screenshot_stage tid it l))"
    using that by (rule screenshot_stage_guard)
  show "t' = now it" "upload_exn it = None" "SCREENSHOT_INTERVAL_S \<le> now it - l"
    if "SetLastShot t' \<in> set (fst (screenshot_stage tid it l))"
    using screenshot_stage_stored [OF that] by simp_all
  show "screenshot_stage tid it l = ([PerfCounter (now it)], Next l)"
    if "now it - l < SCREENSHOT_INTERVAL_S"
    using that by (simp add: screenshot_stage_def)
qed

theorem stored_pushes_spaced_witness:
  "shot_times (fst (run_loop Selenium ''task-1'' (Some example_crop) 0
      [quiet_iteration\<lparr>now := 0.25\<rparr>, quiet_iteration\<lparr>now := 0.4\<rparr>, quiet_iteration\<lparr>now := 0.5\<rparr>]))
     = [0.25, 0.5] \<and>
   spaced 0 [0.25, 0.5]"
proof -
  have run: "shot_times (fst (run_loop Selenium ''task-1'' (Some example_crop) 0
      [quiet_iteration\<lparr>now := 0.25\<rparr>, quiet_iteration\<lparr>now := 0.4\<rparr>, quiet_iteration\<lparr>now := 0.5\<rparr>]))
     = [0.25, 0.5]"
    by (simp add: run_defs)
  have "spaced 0 (shot_times (fst (run_loop Selenium ''task-1'' (Some example_crop) 0
      [quiet_iteration\<lparr>now := 0.25\<rparr>, quiet_iteration\<lparr>now := 0.4\<rparr>, quiet_iteration\<lparr>now := 0.5\<rparr>])))"
    by (rule stored_pushes_spaced [THEN conjunct2, THEN conjunct1])
  with run show ?thesis by (simp del: run_loop.simps)
qed

text \<open>
  Claim C4, as stated, fails for a failure of the createTask call itself: when
  \<^verbatim>\<open>api.create_task\<close> raises (a transport error, a non-2xx answer), nothing in
  \<^verbatim>\<open>run_solve\<close> catches it and the exception leaves \<^verbatim>\<open>run_solve\<close>; "no task" is not
  returned. (No further network call is made in that case either.)
\<close>

theorem create_task_raises_counterexample:
  "run_solve Selenium ''https://example.org/login'' (Some 10) 5
       (example_env\<lparr>create_task_result := Inl OtherException\<rparr>)
     = ([Log ''Waiting for captcha to expand'', Probe, Sleep 1, Probe, Sleep 1, Probe,
         Log ''Captcha expanded'', Log ''Waiting after captcha load'', Sleep 5,
         Log ''Creating task...'', CreateTask ''https://example.org/login''],
        SolveRaised OtherException)"
  by (simp add: solve_defs run_defs)

text \<open>
  Claim C4, amended. \<open>create_failed\<close> holds of a createTask result when its errorId
  is not 0 (an absent errorId included) or its taskId is absent or empty. Once the
  activator and the Expansion Waiter have completed: for every such result
  \<^verbatim>\<open>run_solve\<close> returns None, and when the createTask call itself raises, the exception
  leaves \<^verbatim>\<open>run_solve\<close>; in both cases createTask is the only network call of the
  attempt (no startSession, poll, screenshot or notifySolved).
\<close>

theorem create_task_failure:
  "create_failed res = (errorId res \<noteq> Some 0 \<or> taskId res = None \<or> taskId res = Some []) \<and>
   (open_checkbox env = Completes \<and>
    snd (wait_expanded timeout (expand_start env) (expand_script env)) = WaitReturned c w h \<and>
    create_task_result env = Inr res \<and> create_failed res \<longrightarrow>
      snd (run_solve b url timeout delay env) = SolveReturned None \<and>
      filter is_network_call (fst (run_solve b url timeout delay env)) = [CreateTask url]) \<and>
   (open_checkbox env = Completes \<and>
    snd (wait_expanded timeout (expand_start env) (expand_script env)) = WaitReturned c w h \<and>
    create_task_result env = Inl e \<longrightarrow>
      snd (run_solve b url timeout delay env) = SolveRaised e \<and>
      filter is_network_call (fst (run_solve b url timeout delay env)) = [CreateTask url])"
proof (intro conjI impI)
  show "create_failed res = (errorId res \<noteq> Some 0 \<or> taskId res = None \<or> taskId res = Some [])"
    by (rule create_failed_iff)
next
  assume a: "open_checkbox env = Completes \<and>
    snd (wait_expanded timeout (expand_start env) (expand_script env)) = WaitReturned c w h \<and>
    create_task_result env = Inr res \<and> create_failed res"
  then show "snd (run_solve b url timeout delay env) = SolveReturned None"
    by (intro run_solve_create_failed(1) [of env timeout c w h res]) simp_all
  from a show "filter is_network_call (fst (run_solve b url timeout delay env)) = [CreateTask url]"
    by (intro run_solve_create_failed(2) [of env timeout c w h res]) simp_all
next
  assume a: "open_checkbox env = Completes \<and>
    snd (wait_expanded timeout (expand_start env) (expand_script env)) = WaitReturned c w h \<and>
    create_task_result env = Inl e"
  then show "snd (run_solve b url timeout delay env) = SolveRaised e"
    by (intro run_solve_create_raised(1) [of env timeout c w h e]) simp_all
  from a show "filter is_network_call (fst (run_solve b url timeout delay env)) = [CreateTask url]"
    by (intro run_solve_create_raised(2) [of env timeout c w h e]) simp_all
qed

text \<open>
  The scenario of the specification: createTask answers errorId 1 ("quota exceeded") and
  no taskId.
\<close>

theorem create_task_failure_witness:
  "snd (run_solve Selenium ''https://example.org/login'' (Some 10) 5
       (example_env\<lparr>create_task_result := Inr \<lparr>errorId = Some 1, taskId = None\<rparr>\<rparr>))
     = SolveReturned None \<and>
   filter is_network_call (fst (run_solve Selenium ''https://example.org/login'' (Some 10) 5
       (example_env\<lparr>create_task_result := Inr \<lparr>errorId = Some 1, taskId = None\<rparr>\<rparr>)))
     = [CreateTask ''https://example.org/login'']"
proof -
  have prems: "open_checkbox (example_env\<lparr>create_task_result := Inr \<lparr>errorId = Some 1, taskId = None\<rparr>\<rparr>)
      = Completes \<and>
    snd (wait_expanded (Some 10)
        (expand_start (example_env\<lparr>create_task_result := Inr \<lparr>errorId = Some 1, taskId = None\<rparr>\<rparr>))
        (expand_script (example_env\<lparr>create_task_result := Inr \<lparr>errorId = Some 1, taskId = None\<rparr>\<rparr>)))
      = WaitReturned \<lparr>left = 100, top_y = 50, width = 400, height = 600\<rparr> 1024 720 \<and>
    create_task_result (example_env\<lparr>create_task_result := Inr \<lparr>errorId = Some 1, taskId = None\<rparr>\<rparr>)
      = Inr \<lparr>errorId = Some 1, taskId = None\<rparr> \<and>
    create_failed \<lparr>errorId = Some 1, taskId = None\<rparr>"
    by (simp add: solve_defs run_defs)
  show ?thesis
    by (rule create_task_failure [THEN conjunct2, THEN conjunct1, rule_format, OF prems])
qed

text \<open>
  Claim C10, as stated, fails when the task is created and a later step raises. In the
  first run createTask returns errorId 0 and the task id, and startSession raises: the
  exception leaves \<^verbatim>\<open>run_solve\<close>, which returns nothing. In the second the loop is
  entered, its poll fails, and the user's interrupt arrives during the one-second
  back-off: it leaves the loop and \<^verbatim>\<open>run_solve\<close>.
\<close>

theorem created_task_raises_counterexample:
  "create_task_result (example_env\<lparr>start_session_exn := Some OtherException\<rparr>)
     = Inr \<lparr>errorId = Some 0, taskId = Some ''task-1''\<rparr> \<and>
   snd (run_solve Selenium ''https://example.org/login'' (Some 10) 5
       (example_env\<lparr>start_session_exn := Some OtherException\<rparr>))
     = SolveRaised OtherException \<and>
   filter is_network_call (fst (run_solve Selenium ''https://example.org/login'' (Some 10) 5
       (example_env\<lparr>start_session_exn := Some OtherException\<rparr>)))
     = [CreateTask ''https://example.org/login'',
        StartRemoteSession ''task-1'' ''data:image/png;base64,iVBOR''
          ''https://example.org/login'' 1024 720
          (Some \<lparr>left = 100, top_y = 50, width = 400, height = 600\<rparr>)] \<and>
   snd (run_solve Selenium ''https://example.org/login'' (Some 10) 5
       (example_env\<lparr>loop_script :=
          [quiet_iteration\<lparr>next_action := Inl OtherException, backoff_interrupted := True\<rparr>]\<rparr>))
     = SolveRaised KeyboardInterrupt"
  by (simp add: solve_defs run_defs)

text \<open>
  Claim C10, amended. \<^verbatim>\<open>run_solve\<close> returns None only if createTask returned a result
  with \<open>create_failed\<close> (errorId not 0, or taskId absent or empty), and once the
  activator and the Expansion Waiter have completed and createTask has returned a result,
  it returns None exactly in that case. When the task was created, what \<^verbatim>\<open>run_solve\<close>
  does is decided by the three steps that follow: an exception of the first screenshot
  capture or of startSession leaves \<^verbatim>\<open>run_solve\<close>; otherwise it returns the created
  task id when the loop returns, and an exception that leaves the loop leaves
  \<^verbatim>\<open>run_solve\<close> too. A returned string is always the taskId of the createTask result,
  and it is returned only after the first screenshot and startSession succeeded and the
  loop returned. The loop returns in four ways only, told apart by its last log line:
  the remote status "solved", the remote status "expired", the token submitted, or the
  user's interrupt; the return value is the same in all four.
\<close>

theorem run_solve_return_value:
  "(snd (run_solve b url timeout delay env) = SolveReturned None \<longrightarrow>
      (\<exists>res. create_task_result env = Inr res \<and>
         (errorId res \<noteq> Some 0 \<or> taskId res = None \<or> taskId res = Some []))) \<and>
   (open_checkbox env = Completes \<and>
    snd (wait_expanded timeout (expand_start env) (expand_script env)) = WaitReturned c w h \<and>
    create_task_result env = Inr res \<longrightarrow>
      (snd (run_solve b url timeout delay env) = SolveReturned None)
        = (errorId res \<noteq> Some 0 \<or> taskId res = None \<or> taskId res = Some [])) \<and>
   (open_checkbox env = Completes \<and>
    snd (wait_expanded timeout (expand_start env) (expand_script env)) = WaitReturned c w h \<and>
    create_task_result env = Inr res \<and> errorId res = Some 0 \<and> taskId res = Some task_id \<and>
    task_id \<noteq> [] \<and> first_capture env = Inr shot \<and> start_session_exn env = None \<and>
    snd (run_loop b task_id (Some c) (loop_start env) (loop_script env)) = Returned \<longrightarrow>
      snd (run_solve b url timeout delay env) = SolveReturned (Some task_id)) \<and>
   (snd (run_solve b url timeout delay env) = SolveReturned (Some task_id) \<longrightarrow>
      (\<exists>res. create_task_result env = Inr res \<and> errorId res = Some 0 \<and>
         taskId res = Some task_id \<and> task_id \<noteq> [])) \<and>
   (snd (run_loop b tid crop l script) = Returned \<longrightarrow>
      last (fst (run_loop b tid crop l script)) = Log ''Session ended: solved'' \<or>
      last (fst (run_loop b tid crop l script)) = Log ''Session ended: expired'' \<or>
      last (fst (run_loop b tid crop l script)) = Log ''Token submitted successfully'' \<or>
      last (fst (run_loop b tid crop l script)) = Log ''Interrupted by user'') \<and>
   (open_checkbox env = Completes \<and>
    snd (wait_expanded timeout (expand_start env) (expand_script env)) = WaitReturned c w h \<and>
    create_task_result env = Inr res \<and> errorId res = Some 0 \<and> taskId res = Some task_id \<and>
    task_id \<noteq> [] \<longrightarrow>
      snd (run_solve b url timeout delay env) =
        (case first_capture env of
           Inl x \<Rightarrow> SolveRaised x
         | Inr png \<Rightarrow>
             (case start_session_exn env of
                Some x \<Rightarrow> SolveRaised x
              | None \<Rightarrow>
                  (case snd (run_loop b task_id (Some c) (loop_start env) (loop_script env)) of
                     Returned \<Rightarrow> SolveReturned (Some task_id)
                   | Escaped x \<Rightarrow> SolveRaised x
                   | Running \<Rightarrow> SolveRunning)))) \<and>
   (snd (run_solve b url timeout delay env) = SolveReturned (Some task_id) \<longrightarrow>
      (\<exists>c' w' h' png.
         snd (wait_expanded timeout (expand_start env) (expand_script env))
           = WaitReturned c' w' h' \<and>
         first_capture env = Inr png \<and> start_session_exn env = None \<and>
         snd (run_loop b task_id (Some c') (loop_start env) (loop_script env)) = Returned))"
proof (intro conjI impI)
  assume "snd (run_solve b url timeout delay env) = SolveReturned None"
  from run_solve_result_cases [OF this] obtain c' w' h' where
    "snd (create_and_run b url c' w' h' env) = SolveReturned None" by blast
  then obtain res' where "create_task_result env = Inr res'" "create_failed res'"
    unfolding create_and_run_None by blast
  then show "\<exists>res. create_task_result env = Inr res \<and>
         (errorId res \<noteq> Some 0 \<or> taskId res = None \<or> taskId res = Some [])"
    unfolding create_failed_iff by blast
next
  assume a: "open_checkbox env = Completes \<and>
    snd (wait_expanded timeout (expand_start env) (expand_script env)) = WaitReturned c w h \<and>
    create_task_result env = Inr res"
  then have "snd (run_solve b url timeout delay env) = snd (create_and_run b url c w h env)"
    by (simp add: run_solve_reached_snd)
  with a show "(snd (run_solve b url timeout delay env) = SolveReturned None)
        = (errorId res \<noteq> Some 0 \<or> taskId res = None \<or> taskId res = Some [])"
    by (simp add: create_and_run_None create_failed_iff)
next
  assume a: "open_checkbox env = Completes \<and>
    snd (wait_expanded timeout (expand_start env) (expand_script env)) = WaitReturned c w h \<and>
    create_task_result env = Inr res \<and> errorId res = Some 0 \<and> taskId res = Some task_id \<and>
    task_id \<noteq> [] \<and> first_capture env = Inr shot \<and> start_session_exn env = None \<and>
    snd (run_loop b task_id (Some c) (loop_start env) (loop_script env)) = Returned"
  then have ok: "\<not> create_failed res" by (simp add: create_failed_iff)
  from a have "snd (run_solve b url timeout delay env) = snd (create_and_run b url c w h env)"
    by (simp add: run_solve_reached_snd)
  with a ok create_and_run_loop_returns [of env res task_id shot b c url w h]
  show "snd (run_solve b url timeout delay env) = SolveReturned (Some task_id)"
    by simp
next
  assume "snd (run_solve b url timeout delay env) = SolveReturned (Some task_id)"
  from run_solve_result_cases [OF this] obtain c' w' h' where
    "snd (create_and_run b url c' w' h' env) = SolveReturned (Some task_id)" by blast
  from create_and_run_Some [OF this] obtain res' where
    "create_task_result env = Inr res'" "\<not> create_failed res'" "taskId res' = Some task_id"
    by blast
  then show "\<exists>res. create_task_result env = Inr res \<and> errorId res = Some 0 \<and>
         taskId res = Some task_id \<and> task_id \<noteq> []"
    by (auto simp: create_failed_iff)
next
  assume "snd (run_loop b tid crop l script) = Returned"
  from run_loop_returned [OF this]
  show "last (fst (run_loop b tid crop l script)) = Log ''Session ended: solved'' \<or>
      last (fst (run_loop b tid crop l script)) = Log ''Session ended: expired'' \<or>
      last (fst (run_loop b tid crop l script)) = Log ''Token submitted successfully'' \<or>
      last (fst (run_loop b tid crop l script)) = Log ''Interrupted by user''"
    by (rule conjunct2)
next
  assume a: "open_checkbox env = Completes \<and>
    snd (wait_expanded timeout (expand_start env) (expand_script env)) = WaitReturned c w h \<and>
    create_task_result env = Inr res \<and> errorId res = Some 0 \<and> taskId res = Some task_id \<and>
    task_id \<noteq> []"
  then have "snd (run_solve b url timeout delay env) = snd (create_and_run b url c w h env)"
    by (simp add: run_solve_reached_snd)
  also from a have "\<dots> = snd (start_and_loop b url c w h env task_id)"
    by (simp add: create_and_run_created)
  finally show "snd (run_solve b url timeout delay env) =
        (case first_capture env of
           Inl x \<Rightarrow> SolveRaised x
         | Inr png \<Rightarrow>
             (case start_session_exn env of
                Some x \<Rightarrow> SolveRaised x
              | None \<Rightarrow>
                  (case snd (run_loop b task_id (Some c) (loop_start env) (loop_script env)) of
                     Returned \<Rightarrow> SolveReturned (Some task_id)
                   | Escaped x \<Rightarrow> SolveRaised x
                   | Running \<Rightarrow> SolveRunning)))"
    unfolding start_and_loop_snd .
next
  assume "snd (run_solve b url timeout delay env) = SolveReturned (Some task_id)"
  from run_solve_result_cases [OF this] obtain c' w' h' where
    w: "snd (wait_expanded timeout (expand_start env) (expand_script env)) = WaitReturned c' w' h'"
    and r: "snd (create_and_run b url c' w' h' env) = SolveReturned (Some task_id)" by blast
  from create_and_run_Some [OF r] have
    "start_session_exn env = None"
    "snd (run_loop b task_id (Some c') (loop_start env) (loop_script env)) = Returned"
    by blast+
  moreover from create_and_run_Some_capture [OF r] obtain png where "first_capture env = Inr png" ..
  ultimately show "\<exists>c' w' h' png.
         snd (wait_expanded timeout (expand_start env) (expand_script env))
           = WaitReturned c' w' h' \<and>
         first_capture env = Inr png \<and> start_session_exn env = None \<and>
         snd (run_loop b task_id (Some c') (loop_start env) (loop_script env)) = Returned"
    using w by blast
qed

text \<open>
  The same created task, four runs of the loop: the session expires, the worker solves
  it, the token appears, the user interrupts. Each returns the task id.
\<close>

theorem run_solve_return_value_witness:
  "snd (run_solve Selenium ''https://example.org/login'' (Some 10) 5
       (example_env\<lparr>loop_script :=
          [quiet_iteration\<lparr>next_action := Inr \<lparr>status = ''expired'', action = None\<rparr>\<rparr>]\<rparr>))
     = SolveReturned (Some ''task-1'') \<and>
   snd (run_solve Selenium ''https://example.org/login'' (Some 10) 5
       (example_env\<lparr>loop_script :=
          [quiet_iteration\<lparr>next_action := Inr \<lparr>status = ''solved'', action = None\<rparr>\<rparr>]\<rparr>))
     = SolveReturned (Some ''task-1'') \<and>
   snd (run_solve Selenium ''https://example.org/login'' (Some 10) 5
       (example_env\<lparr>loop_script := [quiet_iteration\<lparr>token_field := Inr (Some ''abc123'')\<rparr>]\<rparr>))
     = SolveReturned (Some ''task-1'') \<and>
   snd (run_solve Selenium ''https://example.org/login'' (Some 10) 5 example_env)
     = SolveReturned (Some ''task-1'') \<and>
   snd (run_solve Selenium ''https://example.org/login'' (Some 10) 5
       (example_env\<lparr>create_task_result := Inr \<lparr>errorId = Some 1, taskId = Some ''task-1''\<rparr>\<rparr>))
     = SolveReturned None"
proof -
  let ?expired = "example_env\<lparr>loop_script :=
          [quiet_iteration\<lparr>next_action := Inr \<lparr>status = ''expired'', action = None\<rparr>\<rparr>]\<rparr>"
  have prems: "open_checkbox ?expired = Completes \<and>
    snd (wait_expanded (Some 10) (expand_start ?expired) (expand_script ?expired))
      = WaitReturned \<lparr>left = 100, top_y = 50, width = 400, height = 600\<rparr> 1024 720 \<and>
    create_task_result ?expired = Inr \<lparr>errorId = Some 0, taskId = Some ''task-1''\<rparr> \<and>
    errorId \<lparr>errorId = Some 0, taskId = Some ''task-1''\<rparr> = Some 0 \<and>
    taskId \<lparr>errorId = Some 0, taskId = Some ''task-1''\<rparr> = Some ''task-1'' \<and>
    ''task-1'' \<noteq> [] \<and> first_capture ?expired = Inr ''iVBOR'' \<and>
    start_session_exn ?expired = None \<and>
    snd (run_loop Selenium ''task-1'' (Some \<lparr>left = 100, top_y = 50, width = 400, height = 600\<rparr>)
        (loop_start ?expired) (loop_script ?expired)) = Returned"
    by (simp add: solve_defs run_defs)
  have expired: "snd (run_solve Selenium ''https://example.org/login'' (Some 10) 5 ?expired)
     = SolveReturned (Some ''task-1'')"
    by (rule run_solve_return_value
        [THEN conjunct2, THEN conjunct2, THEN conjunct1, rule_format, OF prems])
  have solved: "snd (run_solve Selenium ''https://example.org/login'' (Some 10) 5
       (example_env\<lparr>loop_script :=
          [quiet_iteration\<lparr>next_action := Inr \<lparr>status = ''solved'', action = None\<rparr>\<rparr>]\<rparr>))
     = SolveReturned (Some ''task-1'')"
    by (simp add: solve_defs run_defs)
  have token: "snd (run_solve Selenium ''https://example.org/login'' (Some 10) 5
       (example_env\<lparr>loop_script := [quiet_iteration\<lparr>token_field := Inr (Some ''abc123'')\<rparr>]\<rparr>))
     = SolveReturned (Some ''task-1'')"
    by (simp add: solve_defs run_defs)
  have interrupt: "snd (run_solve Selenium ''https://example.org/login'' (Some 10) 5 example_env)
     = SolveReturned (Some ''task-1'')"
    by (simp add: solve_defs interrupted_script_def run_defs)
  have failed: "snd (run_solve Selenium ''https://example.org/login'' (Some 10) 5
       (example_env\<lparr>create_task_result := Inr \<lparr>errorId = Some 1, taskId = Some ''task-1''\<rparr>\<rparr>))
     = SolveReturned None"
    by (simp add: solve_defs run_defs)
  from expired solved token interrupt failed show ?thesis
    by (intro conjI)
qed

end
